theory Spec2Isabelle
  imports Complex_Main "HOL-Library.Multiset"
begin

section \<open>Values, arrays and errors\<close>

text \<open>
  The runner of \<^verbatim>\<open>src/anemoi/inference/runner.py\<close> works on float32 arrays. A cell is
  modelled as a real number or the distinguished value NaN; rounding, overflow and the
  infinities of float32 are not modelled. NaN propagates through addition and through
  \<^verbatim>\<open>np.maximum\<close>, and every ordered comparison with NaN is false, as in numpy.
\<close>

datatype f32 = NaN | Num real

fun isnan :: "f32 \<Rightarrow> bool" where
  "isnan NaN = True"
| "isnan (Num x) = False"

fun f32_add :: "f32 \<Rightarrow> f32 \<Rightarrow> f32" where
  "f32_add (Num x) (Num y) = Num (x + y)"
| "f32_add NaN b = NaN"
| "f32_add (Num x) NaN = NaN"

text \<open>\<^verbatim>\<open>np.maximum(0, v)\<close> on one cell.\<close>

fun np_maximum0 :: "f32 \<Rightarrow> f32" where
  "np_maximum0 (Num x) = Num (max 0 x)"
| "np_maximum0 NaN = NaN"

fun f32_le :: "f32 \<Rightarrow> f32 \<Rightarrow> bool" where
  "f32_le (Num x) (Num y) = (x \<le> y)"
| "f32_le NaN b = False"
| "f32_le (Num x) NaN = False"

text \<open>
  An array is its shape and its cells, stored as nested lists in the order of the axes; an
  array of the shape \<open>(n, 0)\<close> still knows \<open>n\<close>. \<open>mk2\<close> and \<open>mk3\<close> build an array from
  its shape and the content of every cell. The input tensor has the axes
  (lag, feature, grid point) in numpy and (lag, grid point, feature) in torch, where the
  leading batch axis of length one is left out.
\<close>

record arr2 =
  nrows :: nat
  ncols :: nat
  rows :: "f32 list list"

definition elem :: "arr2 \<Rightarrow> nat \<Rightarrow> nat \<Rightarrow> f32" where
  "elem a r g = rows a ! r ! g"

definition mk2 :: "nat \<Rightarrow> nat \<Rightarrow> (nat \<Rightarrow> nat \<Rightarrow> f32) \<Rightarrow> arr2" where
  "mk2 n m f = \<lparr>nrows = n, ncols = m, rows = map (\<lambda>r. map (f r) [0..<m]) [0..<n]\<rparr>"

record tensor3 =
  shape0 :: nat
  shape1 :: nat
  shape2 :: nat
  cells :: "f32 list list list"

definition cell :: "tensor3 \<Rightarrow> nat \<Rightarrow> nat \<Rightarrow> nat \<Rightarrow> f32" where
  "cell t a b d = cells t ! a ! b ! d"

definition mk3 :: "nat \<Rightarrow> nat \<Rightarrow> nat \<Rightarrow> (nat \<Rightarrow> nat \<Rightarrow> nat \<Rightarrow> f32) \<Rightarrow> tensor3" where
  "mk3 n0 n1 n2 f =
     \<lparr>shape0 = n0, shape1 = n1, shape2 = n2,
      cells = map (\<lambda>a. map (\<lambda>b. map (f a b) [0..<n2]) [0..<n1]) [0..<n0]\<rparr>"

text \<open>
  A datetime is counted in microseconds (the resolution of Python's \<^verbatim>\<open>datetime\<close>) from
  2000-01-01 00:00. Python's datetimes range from 0001-01-01 00:00 to
  9999-12-31 23:59:59.999999, that is from 730119 days before the origin to one
  microsecond less than 2921940 days after it.
\<close>

type_synonym datetime = int

definition datetime_min :: datetime where
  "datetime_min = - 63082281600000000"

definition datetime_max :: datetime where
  "datetime_max = 252455615999999999"

text \<open>A retrieved field: its valid datetime and its values, one per grid point.\<close>

record field =
  valid_datetime :: datetime
  field_values :: "f32 list"

datatype error =
    AttributeError
  | AssertionError
  | IndexError
  | KeyError
  | TypeError
  | ValueError string
  | RuntimeError string
  | ZeroDivisionError
  | OverflowError

text \<open>
  \<^verbatim>\<open>datetime.timedelta(hours=h)\<close> in microseconds: it raises OverflowError when the number
  of whole days leaves the range of plus or minus 999999999. The sum of a datetime and a
  timedelta raises OverflowError when it leaves the range of datetimes.
\<close>

definition timedelta_hours :: "int \<Rightarrow> error + int" where
  "timedelta_hours h =
     (if - 23999999976 \<le> h \<and> h \<le> 23999999999 then Inr (h * 3600000000)
      else Inl OverflowError)"

definition datetime_add :: "datetime \<Rightarrow> int \<Rightarrow> error + datetime" where
  "datetime_add d delta =
     (if datetime_min \<le> d + delta \<and> d + delta \<le> datetime_max then Inr (d + delta)
      else Inl OverflowError)"

text \<open>\<^verbatim>\<open>d + datetime.timedelta(hours=h)\<close>.\<close>

definition plus_hours :: "datetime \<Rightarrow> int \<Rightarrow> error + datetime" where
  "plus_hours d h =
     (case timedelta_hours h of Inl e \<Rightarrow> Inl e | Inr delta \<Rightarrow> datetime_add d delta)"

section \<open>The checkpoint and the runner\<close>

text \<open>
  The class \<^verbatim>\<open>Checkpoint\<close> is imported by the runner and is not part of the source at hand;
  the attributes the runner reads are the fields of this record. The masks are numpy index
  arrays (the runner takes \<^verbatim>\<open>len(diagnostic_output_mask)\<close> as the number of diagnostic
  variables), and the two tables are dictionaries.
\<close>

record checkpoint =
  num_input_features :: nat
  computed_constants_mask :: "nat list"
  constants_from_input_mask :: "nat list"
  computed_forcings_mask :: "nat list"
  prognostic_input_mask :: "nat list"
  prognostic_output_mask :: "nat list"
  diagnostic_output_mask :: "nat list"
  model_to_data :: "nat \<rightharpoonup> nat"
  index_to_variable :: "nat \<rightharpoonup> string"
  variable_to_index :: "string \<rightharpoonup> nat"
  computed_constants :: "string list"
  computed_forcings :: "string list"
  imputable_variables :: "string set"
  prognostic_params :: "string list"
  diagnostic_params :: "string list"
  ckpt_hour_steps :: int
  multi_step :: int

text \<open>\<^verbatim>\<open>range(0, n)\<close> for a Python integer \<open>n\<close>: empty when \<open>n \<le> 0\<close>.\<close>

definition py_range :: "int \<Rightarrow> int list" where
  "py_range n = map int [0..<nat n]"

text \<open>The cached properties \<^verbatim>\<open>Runner.hour_steps\<close> and \<^verbatim>\<open>Runner.lagged\<close>.\<close>

definition hour_steps :: "checkpoint \<Rightarrow> int" where
  "hour_steps c = ckpt_hour_steps c"

definition lagged :: "checkpoint \<Rightarrow> int list" where
  "lagged c = sort (map (\<lambda>s. - s * hour_steps c) (py_range (multi_step c)))"

text \<open>
  The date of lag slot \<open>i\<close> during assembly (line 180):
  \<^verbatim>\<open>start_datetime + datetime.timedelta(hours=self.lagged[i])\<close>.
\<close>

definition lag_date :: "checkpoint \<Rightarrow> datetime \<Rightarrow> nat \<Rightarrow> error + datetime" where
  "lag_date c start_datetime i = plus_hours start_datetime (lagged c ! i)"

section \<open>Effects and failures\<close>

text \<open>
  What a run does besides computing: the error lines it logs and the calls it makes to
  \<^verbatim>\<open>output_callback\<close>, in program order. The callback is called in four shapes: the
  initialisation with diagnostics (input fields, diagnostic parameters, template, shape
  of one accumulator row), the plain initialisation (input fields), a prognostic field
  (values, template, step, \<^verbatim>\<open>check_nans\<close>), and an accumulated field (values, stepType,
  template, startStep, endStep, param, \<^verbatim>\<open>check_nans\<close>).
\<close>

datatype effect =
    LogMissing nat nat string
  | LogNoImputation string nat nat
  | CallbackInit "field list" "string list" field nat
  | CallbackInitPlain "field list"
  | CallbackStep "f32 list" field int bool
  | CallbackAccum "f32 list" string field int int string bool

text \<open>
  A computation yields the effects it had and then either the error it raised or its
  result. An exception keeps the effects that happened before it.
\<close>

type_synonym 'a outcome = "effect list \<times> (error + 'a)"

definition ret :: "'a \<Rightarrow> 'a outcome" where
  "ret x = ([], Inr x)"

definition raise :: "error \<Rightarrow> 'a outcome" where
  "raise e = ([], Inl e)"

definition emit :: "effect \<Rightarrow> unit outcome" where
  "emit ev = ([ev], Inr ())"

definition lift :: "error + 'a \<Rightarrow> 'a outcome" where
  "lift r = ([], r)"

definition then_do :: "'a outcome \<Rightarrow> ('a \<Rightarrow> 'b outcome) \<Rightarrow> 'b outcome" where
  "then_do m f =
     (case m of
        (tr, Inl e) \<Rightarrow> (tr, Inl e)
      | (tr, Inr x) \<Rightarrow> (case f x of (tr', r) \<Rightarrow> (tr @ tr', r)))"

definition and_then :: "error + 'a \<Rightarrow> ('a \<Rightarrow> error + 'b) \<Rightarrow> error + 'b" where
  "and_then r f = (case r of Inl e \<Rightarrow> Inl e | Inr x \<Rightarrow> f x)"

section \<open>Feature classification (lines 73 to 115)\<close>

text \<open>
  The one-character kind codes of the source: \<^verbatim>\<open>?\<close> (not classified), \<^verbatim>\<open>C\<close> computed
  constant, \<^verbatim>\<open>K\<close> constant from input, \<^verbatim>\<open>F\<close> computed forcing, \<^verbatim>\<open>P\<close> prognostic input.
\<close>

datatype kind = Kind_Q | Kind_C | Kind_K | Kind_F | Kind_P

record classification =
  check :: "bool list"
  kinds :: "kind list"
  inputs :: "bool list"

text \<open>\<^verbatim>\<open>xs[mask] = v\<close> for an index array \<open>ms\<close> whose entries are in range.\<close>

definition np_put :: "'a list \<Rightarrow> nat list \<Rightarrow> 'a \<Rightarrow> 'a list" where
  "np_put xs ms v = map (\<lambda>i. if i \<in> set ms then v else xs ! i) [0..<length xs]"

text \<open>
  One of the four blocks: \<^verbatim>\<open>check[mask]\<close> raises IndexError for an index out of range,
  the assertion fails when an index is already covered, then the three arrays are updated
  (\<^verbatim>\<open>inputs\<close> only for the two kinds taken from the retrieved fields).
\<close>

definition mark :: "nat list \<Rightarrow> kind \<Rightarrow> bool \<Rightarrow> classification \<Rightarrow> error + classification" where
  "mark ms k is_input cl =
     (if \<not> list_all (\<lambda>i. i < length (check cl)) ms then Inl IndexError
      else if list_ex (\<lambda>i. check cl ! i) ms then Inl AssertionError
      else Inr \<lparr>check = np_put (check cl) ms True,
                kinds = np_put (kinds cl) ms k,
                inputs = (if is_input then np_put (inputs cl) ms True else inputs cl)\<rparr>)"

text \<open>
  The loop of lines 107 to 114 over \<^verbatim>\<open>enumerate(check)\<close>, followed by the
  \<^verbatim>\<open>RuntimeError\<close> of line 115. A missing key of one of the two tables raises KeyError.
\<close>

fun report_missing :: "checkpoint \<Rightarrow> bool list \<Rightarrow> nat list \<Rightarrow> classification outcome" where
  "report_missing c chk [] = raise (RuntimeError ''Missing fields'')"
| "report_missing c chk (i # rest) =
     (if chk ! i then report_missing c chk rest
      else (case model_to_data c i of
              None \<Rightarrow> raise KeyError
            | Some d \<Rightarrow>
                (case index_to_variable c d of
                   None \<Rightarrow> raise KeyError
                 | Some name \<Rightarrow>
                     then_do (emit (LogMissing i d name)) (\<lambda>u. report_missing c chk rest))))"

text \<open>Lines 73 to 103: the three arrays and the four blocks, in the order of the source.\<close>

definition four_marks :: "checkpoint \<Rightarrow> error + classification" where
  "four_marks c =
     (let n = num_input_features c;
          start = \<lparr>check = replicate n False, kinds = replicate n Kind_Q,
                   inputs = replicate n False\<rparr>
      in and_then (mark (computed_constants_mask c) Kind_C False start) (\<lambda>cl1.
         and_then (mark (constants_from_input_mask c) Kind_K True cl1) (\<lambda>cl2.
         and_then (mark (computed_forcings_mask c) Kind_F False cl2) (\<lambda>cl3.
         mark (prognostic_input_mask c) Kind_P True cl3))))"

definition classify :: "checkpoint \<Rightarrow> classification outcome" where
  "classify c =
     then_do (lift (four_marks c))
       (\<lambda>cl. if list_all (\<lambda>b. b) (check cl) then ret cl
             else report_missing c (check cl) [0..<length (check cl)])"

section \<open>Positions among the retrieved fields (lines 117 to 144)\<close>

text \<open>
  The loop over \<^verbatim>\<open>enumerate(check)\<close> with the counter \<^verbatim>\<open>retrieved_fields_index\<close>: every
  input feature takes the next position among the retrieved fields, appended to the
  prognostic list or to the constant list by its kind. The printing under \<^verbatim>\<open>verbose\<close> is
  left out: the class never sets that attribute.
\<close>

fun retrieved_loop ::
  "classification \<Rightarrow> nat list \<Rightarrow> nat \<Rightarrow> nat list \<Rightarrow> nat list \<Rightarrow> error + nat list \<times> nat list" where
  "retrieved_loop cl [] r ps ks = Inr (ps, ks)"
| "retrieved_loop cl (i # rest) r ps ks =
     (if inputs cl ! i then
        (if kinds cl ! i \<noteq> Kind_P \<and> kinds cl ! i \<noteq> Kind_K then Inl AssertionError
         else if kinds cl ! i = Kind_P then retrieved_loop cl rest (r + 1) (ps @ [r]) ks
         else retrieved_loop cl rest (r + 1) ps (ks @ [r]))
      else retrieved_loop cl rest r ps ks)"

definition retrieved_masks :: "classification \<Rightarrow> error + nat list \<times> nat list" where
  "retrieved_masks cl = retrieved_loop cl [0..<length (check cl)] 0 [] []"

section \<open>Loading the retrieved fields (lines 61 to 70)\<close>

text \<open>
  The fields are those left by \<^verbatim>\<open>sel\<close> and \<^verbatim>\<open>order_by\<close>, which belong to the field
  library. \<^verbatim>\<open>input_fields[0]\<close> raises IndexError on an empty list; \<^verbatim>\<open>to_numpy\<close> needs
  every field to have as many values as the first; the integer division by the number of
  lags raises ZeroDivisionError; \<^verbatim>\<open>reshape\<close> needs the sizes to agree.
\<close>

definition load_input :: "checkpoint \<Rightarrow> field list \<Rightarrow> error + tensor3" where
  "load_input c input_fields =
     (case input_fields of
        [] \<Rightarrow> Inl IndexError
      | f0 # _ \<Rightarrow>
          (let gridpoints = length (field_values f0); nlags = length (lagged c) in
           if \<not> list_all (\<lambda>f. length (field_values f) = gridpoints) input_fields
             then Inl (ValueError ''to_numpy'')
           else if nlags = 0 then Inl ZeroDivisionError
           else (let nparams = length input_fields div nlags in
                 if length input_fields * gridpoints \<noteq> nlags * nparams * gridpoints
                   then Inl (ValueError ''reshape'')
                 else Inr (mk3 nlags nparams gridpoints
                             (\<lambda>l r g. field_values (input_fields ! (l * nparams + r)) ! g)))))"

section \<open>Index arrays and broadcasting\<close>

text \<open>
  An assignment through an index array writes the columns of the right-hand side in the
  order of the array, so a position that occurs twice keeps the value written last.
  numpy and torch broadcast an axis of length one of the right-hand side.
\<close>

definition last_index :: "nat list \<Rightarrow> nat \<Rightarrow> nat option" where
  "last_index ms i =
     (case filter (\<lambda>j. ms ! j = i) (rev [0..<length ms]) of [] \<Rightarrow> None | j # _ \<Rightarrow> Some j)"

definition in_range :: "nat list \<Rightarrow> nat \<Rightarrow> bool" where
  "in_range ms n = list_all (\<lambda>i. i < n) ms"

definition broadcastable :: "nat \<Rightarrow> nat \<Rightarrow> bool" where
  "broadcastable given wanted = (given = wanted \<or> given = 1)"

definition bcast :: "nat \<Rightarrow> nat \<Rightarrow> nat" where
  "bcast given j = (if given = 1 then 0 else j)"

text \<open>The cell of a two-dimensional right-hand side that lands at row \<open>j\<close>, column \<open>g\<close>.\<close>

definition bcast_elem :: "arr2 \<Rightarrow> nat \<Rightarrow> nat \<Rightarrow> f32" where
  "bcast_elem a j g = elem a (bcast (nrows a) j) (bcast (ncols a) g)"

text \<open>
  \<^verbatim>\<open>a[:, idx]\<close> on the feature axis. The index arrays of lines 143 and 144 are built by
  \<^verbatim>\<open>np.array\<close> from a Python list, and the array of an empty list is a float array, which
  numpy refuses as an index.
\<close>

definition take_features :: "tensor3 \<Rightarrow> nat list \<Rightarrow> error + tensor3" where
  "take_features a idx =
     (if idx = [] then Inl IndexError
      else if \<not> in_range idx (shape1 a) then Inl IndexError
      else Inr (mk3 (shape0 a) (length idx) (shape2 a) (\<lambda>l j g. cell a l (idx ! j) g)))"

text \<open>\<^verbatim>\<open>t[:, ms] = src\<close> on the feature axis.\<close>

definition put_features :: "tensor3 \<Rightarrow> nat list \<Rightarrow> tensor3 \<Rightarrow> error + tensor3" where
  "put_features t ms src =
     (if \<not> in_range ms (shape1 t) then Inl IndexError
      else if \<not> (broadcastable (shape0 src) (shape0 t) \<and>
                  broadcastable (shape1 src) (length ms) \<and>
                  broadcastable (shape2 src) (shape2 t))
        then Inl (ValueError ''shape mismatch'')
      else Inr (mk3 (shape0 t) (shape1 t) (shape2 t) (\<lambda>l i g.
                  case last_index ms i of
                    None \<Rightarrow> cell t l i g
                  | Some j \<Rightarrow> cell src (bcast (shape0 src) l) (bcast (shape1 src) j)
                               (bcast (shape2 src) g))))"

text \<open>\<^verbatim>\<open>t[lag, ms] = a\<close> for one lag slot.\<close>

definition put_lag :: "tensor3 \<Rightarrow> nat \<Rightarrow> nat list \<Rightarrow> arr2 \<Rightarrow> error + tensor3" where
  "put_lag t lag ms a =
     (if \<not> lag < shape0 t \<or> \<not> in_range ms (shape1 t) then Inl IndexError
      else if \<not> (broadcastable (nrows a) (length ms) \<and> broadcastable (ncols a) (shape2 t))
        then Inl (ValueError ''shape mismatch'')
      else Inr (mk3 (shape0 t) (shape1 t) (shape2 t) (\<lambda>l i g.
                  if l = lag then
                    (case last_index ms i of
                       None \<Rightarrow> cell t l i g
                     | Some j \<Rightarrow> bcast_elem a j g)
                  else cell t l i g)))"

section \<open>Computed constants and forcings (lines 21 to 33)\<close>

text \<open>
  The source \<^verbatim>\<open>constants\<close> of the field library is a parameter: it maps the template
  fields, a date and a parameter list to an array with one row per field it made.
\<close>

type_synonym loader = "field list \<Rightarrow> datetime \<Rightarrow> string list \<Rightarrow> arr2"

definition forcing_and_constants ::
  "loader \<Rightarrow> field list \<Rightarrow> datetime \<Rightarrow> string list \<Rightarrow> error + arr2" where
  "forcing_and_constants load_source source date param =
     (let ds = load_source source date param in
      if nrows ds = length param then Inr ds else Inl AssertionError)"

section \<open>Assembly of the input tensor (lines 146 to 182)\<close>

fun constants_loop :: "nat list \<Rightarrow> nat list \<Rightarrow> arr2 \<Rightarrow> tensor3 \<Rightarrow> error + tensor3" where
  "constants_loop [] ms a t = Inr t"
| "constants_loop (i # rest) ms a t = and_then (put_lag t i ms a) (constants_loop rest ms a)"

fun forcings_loop ::
  "checkpoint \<Rightarrow> loader \<Rightarrow> field list \<Rightarrow> datetime \<Rightarrow> nat list \<Rightarrow> tensor3 \<Rightarrow> error + tensor3" where
  "forcings_loop c ld input_fields start_datetime [] t = Inr t"
| "forcings_loop c ld input_fields start_datetime (i # rest) t =
     and_then (lag_date c start_datetime i) (\<lambda>date.
     and_then (forcing_and_constants ld (take 1 input_fields) date (computed_forcings c))
       (\<lambda>forcings.
     and_then (put_lag t i (computed_forcings_mask c) forcings)
       (forcings_loop c ld input_fields start_datetime rest)))"

text \<open>
  \<open>input_fields_numpy\<close> is the reshaped array of the retrieved fields, \<open>ps\<close> and \<open>ks\<close> are
  \<^verbatim>\<open>prognostic_data_from_retrieved_fields_mask\<close> and
  \<^verbatim>\<open>constant_data_from_retrieved_fields_mask\<close>.
\<close>

definition assemble ::
  "checkpoint \<Rightarrow> loader \<Rightarrow> field list \<Rightarrow> datetime \<Rightarrow> tensor3 \<Rightarrow> nat list \<Rightarrow> nat list
     \<Rightarrow> error + tensor3" where
  "assemble c ld input_fields start_datetime input_fields_numpy ps ks =
     (let nlags = length (lagged c);
          full = mk3 nlags (num_input_features c) (shape2 input_fields_numpy)
                   (\<lambda>l i g. NaN)
      in and_then (take_features input_fields_numpy ps) (\<lambda>src_p.
         and_then (put_features full (prognostic_input_mask c) src_p) (\<lambda>t1.
         and_then (take_features input_fields_numpy ks) (\<lambda>src_k.
         and_then (put_features t1 (constants_from_input_mask c) src_k) (\<lambda>t2.
         and_then (forcing_and_constants ld (take 1 input_fields) start_datetime
                     (computed_constants c)) (\<lambda>constants.
         and_then (constants_loop [0..<nlags] (computed_constants_mask c) constants t2) (\<lambda>t3.
         forcings_loop c ld input_fields start_datetime [0..<nlags] t3)))))))"

section \<open>Validation of missing values (lines 186 to 203)\<close>

definition has_missing :: "tensor3 \<Rightarrow> nat \<Rightarrow> bool" where
  "has_missing t i =
     list_ex (\<lambda>l. list_ex (\<lambda>g. isnan (cell t l i g)) [0..<shape2 t]) [0..<shape0 t]"

definition nan_message :: "string \<Rightarrow> string" where
  "nan_message name =
     ''Field '' @ [CHR 0x27] @ name @ [CHR 0x27] @ '' has NaNs and is not marked as imputable''"

text \<open>
  The loop over the feature axis. It reads the tensor and extends the set
  \<^verbatim>\<open>can_be_missing\<close>; the tensor is handed on as it came.
\<close>

fun nan_check ::
  "checkpoint \<Rightarrow> tensor3 \<Rightarrow> nat list \<Rightarrow> string set \<Rightarrow> (tensor3 \<times> string set) outcome" where
  "nan_check c t [] can_be_missing = ret (t, can_be_missing)"
| "nan_check c t (i # rest) can_be_missing =
     (case model_to_data c i of
        None \<Rightarrow> raise KeyError
      | Some d \<Rightarrow>
          (case index_to_variable c d of
             None \<Rightarrow> raise KeyError
           | Some name \<Rightarrow>
               if has_missing t i then
                 (if name \<in> imputable_variables c
                    then nan_check c t rest (insert name can_be_missing)
                  else then_do (emit (LogNoImputation name i d))
                         (\<lambda>u. raise (ValueError (nan_message name))))
               else nan_check c t rest can_be_missing))"

definition validate :: "checkpoint \<Rightarrow> tensor3 \<Rightarrow> (tensor3 \<times> string set) outcome" where
  "validate c t = nan_check c t [0..<shape1 t] {}"

section \<open>Templates (lines 244 to 253)\<close>

definition get_most_recent_datetime :: "field list \<Rightarrow> error + datetime" where
  "get_most_recent_datetime input_fields =
     (case input_fields of
        [] \<Rightarrow> Inl IndexError
      | _ # _ \<Rightarrow>
          (let latest = valid_datetime (last input_fields) in
           if list_all (\<lambda>f. valid_datetime f \<le> latest) input_fields then Inr latest
           else Inl AssertionError))"

definition get_precip_template :: "checkpoint \<Rightarrow> field list \<Rightarrow> error + field" where
  "get_precip_template c reference_fields =
     (case variable_to_index c ''2t'' of
        None \<Rightarrow> Inl KeyError
      | Some k \<Rightarrow> if k < length reference_fields then Inr (reference_fields ! k)
                  else Inl IndexError)"

section \<open>The rollout (lines 255 to 353)\<close>

text \<open>The local variables of \<^verbatim>\<open>run\<close> that the loop reads and never writes.\<close>

record scope =
  sc_checkpoint :: checkpoint
  sc_input_fields :: "field list"
  sc_start_datetime :: datetime
  sc_prognostic_data :: "nat list"
  sc_most_recent_datetime :: datetime
  sc_reference_fields :: "field list"
  sc_precip_template :: field

text \<open>
  Lines 305 to 316, over \<^verbatim>\<open>enumerate(zip(prognostic_data_from_retrieved_fields_mask,
  prognostic_params))\<close>; \<open>y\<close> is the squeezed model output, one row per grid point and one
  column per output feature.
\<close>

fun prognostic_loop ::
  "scope \<Rightarrow> arr2 \<Rightarrow> int \<Rightarrow> (nat \<times> nat \<times> string) list \<Rightarrow> unit outcome" where
  "prognostic_loop sc y step [] = ret ()"
| "prognostic_loop sc y step ((n, m, param) # rest) =
     (if \<not> m < length (sc_reference_fields sc) then raise IndexError
      else if valid_datetime (sc_reference_fields sc ! m) \<noteq> sc_most_recent_datetime sc
        then raise AssertionError
      else if \<not> n < length (prognostic_output_mask (sc_checkpoint sc)) then raise IndexError
      else then_do
             (emit (CallbackStep
                (map (\<lambda>g. elem y g (prognostic_output_mask (sc_checkpoint sc) ! n))
                   [0..<nrows y])
                (sc_reference_fields sc ! m) step True))
             (\<lambda>u. prognostic_loop sc y step rest))"

text \<open>
  Line 321 for row \<open>n\<close>:
  \<^verbatim>\<open>accumulated_output[n] += np.maximum(0, diagnostic_fields_numpy[:, n])\<close>.
\<close>

definition accumulate :: "checkpoint \<Rightarrow> arr2 \<Rightarrow> nat \<Rightarrow> arr2 \<Rightarrow> arr2" where
  "accumulate c y n acc =
     mk2 (nrows acc) (ncols acc) (\<lambda>r g.
       if r = n then
         f32_add (elem acc n g)
           (np_maximum0 (elem y (bcast (nrows y) g) (diagnostic_output_mask c ! n)))
       else elem acc r g)"

text \<open>Lines 320 to 334, over \<^verbatim>\<open>enumerate(self.checkpoint.diagnostic_params)\<close>.\<close>

fun diagnostic_loop ::
  "scope \<Rightarrow> arr2 \<Rightarrow> int \<Rightarrow> (nat \<times> string) list \<Rightarrow> arr2 \<Rightarrow> arr2 outcome" where
  "diagnostic_loop sc y step [] acc = ret acc"
| "diagnostic_loop sc y step ((n, param) # rest) acc =
     (if \<not> (n < nrows acc \<and> n < length (diagnostic_output_mask (sc_checkpoint sc)))
        then raise IndexError
      else if \<not> broadcastable (nrows y) (ncols acc) then raise (ValueError ''shape mismatch'')
      else if valid_datetime (sc_precip_template sc) \<noteq> sc_most_recent_datetime sc
        then raise AssertionError
      else then_do
             (emit (CallbackAccum
                (map (elem (accumulate (sc_checkpoint sc) y n acc) n) [0..<ncols acc])
                ''accum'' (sc_precip_template sc) 0 step param True))
             (\<lambda>u. diagnostic_loop sc y step rest (accumulate (sc_checkpoint sc) y n acc)))"

text \<open>
  \<^verbatim>\<open>t[:, -1, :, ms] = src\<close> on the torch tensor: the newest lag slot, every grid point,
  the features of the index array. \<open>src\<close> has \<open>g_given\<close> rows (grid points) and \<open>n_given\<close>
  columns.
\<close>

definition put_newest ::
  "tensor3 \<Rightarrow> nat list \<Rightarrow> nat \<Rightarrow> nat \<Rightarrow> (nat \<Rightarrow> nat \<Rightarrow> f32) \<Rightarrow> error + tensor3" where
  "put_newest t ms g_given n_given src =
     (if shape0 t = 0 \<or> \<not> in_range ms (shape2 t) then Inl IndexError
      else if \<not> (broadcastable g_given (shape1 t) \<and> broadcastable n_given (length ms))
        then Inl (RuntimeError ''shape mismatch'')
      else Inr (mk3 (shape0 t) (shape1 t) (shape2 t) (\<lambda>l g i.
                  if l = shape0 t - 1 then
                    (case last_index ms i of
                       None \<Rightarrow> cell t l g i
                     | Some j \<Rightarrow> src (bcast g_given g) (bcast n_given j))
                  else cell t l g i)))"

text \<open>\<^verbatim>\<open>t.roll(-1, dims=1)\<close>: slot \<open>l\<close> takes the content of slot \<open>l + 1\<close>, the last one that of slot 0.\<close>

definition roll :: "tensor3 \<Rightarrow> tensor3" where
  "roll t = mk3 (shape0 t) (shape1 t) (shape2 t) (\<lambda>l. cell t ((l + 1) mod shape0 t))"

text \<open>Lines 338 to 353: the prognostic fields and the new forcing enter the rolled tensor.\<close>

definition advance_window :: "checkpoint \<Rightarrow> tensor3 \<Rightarrow> arr2 \<Rightarrow> arr2 \<Rightarrow> error + tensor3" where
  "advance_window c t y forcing =
     and_then
       (put_newest (roll t) (prognostic_input_mask c) (nrows y)
          (length (prognostic_output_mask c))
          (\<lambda>g j. elem y g (prognostic_output_mask c ! j)))
       (\<lambda>t1. put_newest t1 (computed_forcings_mask c) (ncols forcing) (nrows forcing)
               (\<lambda>g j. elem forcing j g))"

text \<open>
  One iteration for the loop index \<open>i\<close>. The model with its wrapper is the parameter
  \<open>predict_step\<close>, from the tensor to the output without its batch axis. \<^verbatim>\<open>np.squeeze\<close>
  drops every axis of length one, so an output with a single grid point or a single
  feature has lost an axis and \<^verbatim>\<open>output[:, mask]\<close> raises IndexError.
\<close>

definition rollout_step ::
  "scope \<Rightarrow> loader \<Rightarrow> (tensor3 \<Rightarrow> arr2) \<Rightarrow> int \<Rightarrow> tensor3 \<times> arr2 \<Rightarrow> (tensor3 \<times> arr2) outcome" where
  "rollout_step sc ld predict_step i st =
     (let c = sc_checkpoint sc;
          t = fst st;
          acc = snd st;
          step = (i + 1) * hour_steps c;
          y = predict_step t
      in if nrows y = 1 \<or> ncols y = 1 then raise IndexError
         else if \<not> in_range (prognostic_output_mask c) (ncols y) then raise IndexError
         else if diagnostic_output_mask c \<noteq> [] \<and> \<not> in_range (diagnostic_output_mask c) (ncols y)
           then raise IndexError
         else
           then_do (prognostic_loop sc y step
                      (zip [0..<length (sc_prognostic_data sc)]
                         (zip (sc_prognostic_data sc) (prognostic_params c)))) (\<lambda>u.
           then_do (if diagnostic_output_mask c \<noteq> []
                    then diagnostic_loop sc y step
                           (zip [0..<length (diagnostic_params c)] (diagnostic_params c)) acc
                    else ret acc) (\<lambda>acc'.
           then_do (lift (plus_hours (sc_start_datetime sc) step)) (\<lambda>date.
           then_do (lift (forcing_and_constants ld (take 1 (sc_input_fields sc)) date
                            (computed_forcings c))) (\<lambda>forcing.
           then_do (lift (advance_window c t y forcing)) (\<lambda>t'.
           ret (t', acc')))))))"

fun rollout ::
  "scope \<Rightarrow> loader \<Rightarrow> (tensor3 \<Rightarrow> arr2) \<Rightarrow> int list \<Rightarrow> tensor3 \<times> arr2 \<Rightarrow> (tensor3 \<times> arr2) outcome" where
  "rollout sc ld predict_step [] st = ret st"
| "rollout sc ld predict_step (i # rest) st =
     then_do (rollout_step sc ld predict_step i st) (rollout sc ld predict_step rest)"

text \<open>
  The indices of the loop, \<^verbatim>\<open>range(lead_time // self.hour_steps)\<close>; the integer division
  raises ZeroDivisionError for a step of zero hours.
\<close>

definition loop_indices :: "checkpoint \<Rightarrow> int \<Rightarrow> error + int list" where
  "loop_indices c lead_time =
     (if hour_steps c = 0 then Inl ZeroDivisionError
      else Inr (py_range (lead_time div hour_steps c)))"

section \<open>The run (lines 46 to 353)\<close>

text \<open>\<^verbatim>\<open>np.swapaxes(a, -2, -1)\<close>.\<close>

definition swapaxes :: "tensor3 \<Rightarrow> tensor3" where
  "swapaxes a = mk3 (shape0 a) (shape2 a) (shape1 a) (\<lambda>l g i. cell a l i g)"

text \<open>Lines 260 to 268: the first call of the callback.\<close>

definition initial_callback :: "checkpoint \<Rightarrow> field list \<Rightarrow> field \<Rightarrow> arr2 \<Rightarrow> unit outcome" where
  "initial_callback c input_fields precip_template accumulated_output =
     (if diagnostic_params c \<noteq> [] then
        (if nrows accumulated_output = 0 then raise IndexError
         else emit (CallbackInit input_fields (diagnostic_params c) precip_template
                      (ncols accumulated_output)))
      else emit (CallbackInitPlain input_fields))"

text \<open>
  The body of \<^verbatim>\<open>run\<close> for a runner whose checkpoint is \<open>c\<close>. Loading the model from the
  checkpoint file and moving data between devices are taken to succeed.
\<close>

definition run_with ::
  "checkpoint \<Rightarrow> loader \<Rightarrow> (tensor3 \<Rightarrow> arr2) \<Rightarrow> field list \<Rightarrow> int \<Rightarrow> datetime \<Rightarrow> unit outcome" where
  "run_with c ld predict_step input_fields lead_time start_datetime =
     then_do (lift (load_input c input_fields)) (\<lambda>input_fields_numpy.
     then_do (classify c) (\<lambda>cl.
     then_do (lift (retrieved_masks cl)) (\<lambda>pk.
     then_do (lift (assemble c ld input_fields start_datetime input_fields_numpy
                      (fst pk) (snd pk))) (\<lambda>input_tensor_numpy.
     then_do (validate c input_tensor_numpy) (\<lambda>tv.
     then_do (lift (get_most_recent_datetime input_fields)) (\<lambda>most_recent_datetime.
     then_do (lift (get_precip_template c
                (filter (\<lambda>f. valid_datetime f = most_recent_datetime) input_fields)))
       (\<lambda>precip_template.
     then_do (initial_callback c input_fields precip_template
                (mk2 (length (diagnostic_output_mask c)) (shape2 input_fields_numpy)
                   (\<lambda>r g. Num 0))) (\<lambda>u.
     then_do (lift (loop_indices c lead_time)) (\<lambda>is.
     then_do (rollout
                \<lparr>sc_checkpoint = c, sc_input_fields = input_fields,
                 sc_start_datetime = start_datetime, sc_prognostic_data = fst pk,
                 sc_most_recent_datetime = most_recent_datetime,
                 sc_reference_fields =
                   filter (\<lambda>f. valid_datetime f = most_recent_datetime) input_fields,
                 sc_precip_template = precip_template\<rparr>
                ld predict_step is
                (swapaxes (fst tv),
                 mk2 (length (diagnostic_output_mask c)) (shape2 input_fields_numpy)
                   (\<lambda>r g. Num 0)))
       (\<lambda>st. ret ()))))))))))"

section \<open>The runner object (lines 38 to 58)\<close>

text \<open>
  A runner has the attribute \<^verbatim>\<open>checkpoint\<close> or lacks it. The constructor of the class
  \<^verbatim>\<open>Checkpoint\<close> is not in the source at hand; it receives the runner and the path, so it
  is a parameter that may raise, and that returns the runner as it left it together with
  the new object.
\<close>

record runner =
  self_checkpoint :: "checkpoint option"

datatype init_arg = Path string | Instance checkpoint | Other

definition Runner_init ::
  "(runner \<Rightarrow> string \<Rightarrow> error + runner \<times> checkpoint) \<Rightarrow> init_arg \<Rightarrow> error + runner" where
  "Runner_init new_checkpoint arg =
     (case arg of
        Path p \<Rightarrow>
          (case new_checkpoint \<lparr>self_checkpoint = None\<rparr> p of
             Inl e \<Rightarrow> Inl e
           | Inr (self, local_checkpoint) \<Rightarrow> Inr self)
      | Instance ck \<Rightarrow> Inr \<lparr>self_checkpoint = Some ck\<rparr>
      | Other \<Rightarrow> Inl AssertionError)"

definition run ::
  "runner \<Rightarrow> loader \<Rightarrow> (tensor3 \<Rightarrow> arr2) \<Rightarrow> field list \<Rightarrow> int \<Rightarrow> datetime \<Rightarrow> unit outcome" where
  "run self ld predict_step input_fields lead_time start_datetime =
     (case self_checkpoint self of
        None \<Rightarrow> raise AttributeError
      | Some c \<Rightarrow> run_with c ld predict_step input_fields lead_time start_datetime)"

section \<open>A small configuration\<close>

text \<open>
  Two lags, five input features of the kinds P, P, K, C, F, three output features of
  which the last is diagnostic, two grid points and a step of six hours. The six fields
  are the three retrieved variables at the earlier and at the later lag. The model
  returns the same output at every step; its diagnostic value is negative at the first
  grid point.
\<close>

definition demo_checkpoint :: checkpoint where
  "demo_checkpoint =
     \<lparr>num_input_features = 5,
      computed_constants_mask = [3],
      constants_from_input_mask = [2],
      computed_forcings_mask = [4],
      prognostic_input_mask = [0, 1],
      prognostic_output_mask = [0, 1],
      diagnostic_output_mask = [2],
      model_to_data = (\<lambda>i. if i < 5 then Some i else None),
      index_to_variable =
        [0 \<mapsto> ''2t'', 1 \<mapsto> ''10u'', 2 \<mapsto> ''lsm'', 3 \<mapsto> ''cos_latitude'', 4 \<mapsto> ''insolation''],
      variable_to_index = [''2t'' \<mapsto> 0, ''10u'' \<mapsto> 1, ''lsm'' \<mapsto> 2],
      computed_constants = [''cos_latitude''],
      computed_forcings = [''insolation''],
      imputable_variables = {},
      prognostic_params = [''2t'', ''10u''],
      diagnostic_params = [''tp''],
      ckpt_hour_steps = 6,
      multi_step = 2\<rparr>"

definition demo_field :: "int \<Rightarrow> real \<Rightarrow> field" where
  "demo_field hours v =
     \<lparr>valid_datetime = hours * 3600000000, field_values = [Num v, Num (v + 1)]\<rparr>"

definition demo_fields :: "field list" where
  "demo_fields =
     [demo_field (- 6) 10, demo_field (- 6) 20, demo_field (- 6) 30,
      demo_field 0 40, demo_field 0 50, demo_field 0 60]"

definition demo_loader :: loader where
  "demo_loader source date param =
     mk2 (length param) 2
       (\<lambda>r g. Num (of_int (date div 3600000000) + of_nat (length (hd param))))"

definition demo_model :: "tensor3 \<Rightarrow> arr2" where
  "demo_model t =
     mk2 2 3
       (\<lambda>g j. if j = 2 then (if g = 0 then Num (- 1) else Num 2)
              else Num (of_nat (100 * (j + 1) + g)))"

text \<open>
  The local variables of a run on the small configuration, except that the reference
  fields and the template have the datetime of the earlier lag.
\<close>

definition drifted_scope :: scope where
  "drifted_scope =
     \<lparr>sc_checkpoint = demo_checkpoint, sc_input_fields = demo_fields,
      sc_start_datetime = 0, sc_prognostic_data = [0, 1],
      sc_most_recent_datetime = 0,
      sc_reference_fields = [demo_field (- 6) 10, demo_field (- 6) 20, demo_field (- 6) 30],
      sc_precip_template = demo_field (- 6) 10\<rparr>"

text \<open>The small configuration with feature 1 left out of the prognostic mask.\<close>

definition gap_checkpoint :: checkpoint where
  "gap_checkpoint = demo_checkpoint\<lparr>prognostic_input_mask := [0]\<rparr>"





text \<open>The small configuration with a step of minus six hours.\<close>

definition backward_checkpoint :: checkpoint where
  "backward_checkpoint = demo_checkpoint\<lparr>ckpt_hour_steps := - 6\<rparr>"




section \<open>Reading a trace\<close>

text \<open>
  The step number attached to a call of the callback (\<^verbatim>\<open>step\<close> of a prognostic field,
  \<^verbatim>\<open>endStep\<close> of an accumulated one), and the two sorts of call.
\<close>

fun effect_step :: "effect \<Rightarrow> int option" where
  "effect_step (CallbackStep vs template step check_nans) = Some step"
| "effect_step (CallbackAccum vs step_type template start_step end_step param check_nans) =
     Some end_step"
| "effect_step (LogMissing i d name) = None"
| "effect_step (LogNoImputation name i d) = None"
| "effect_step (CallbackInit fs params template shape) = None"
| "effect_step (CallbackInitPlain fs) = None"

fun is_initial_call :: "effect \<Rightarrow> bool" where
  "is_initial_call (CallbackInit fs params template shape) = True"
| "is_initial_call (CallbackInitPlain fs) = True"
| "is_initial_call (CallbackStep vs template step check_nans) = False"
| "is_initial_call (CallbackAccum vs step_type template start_step end_step param check_nans) =
     False"
| "is_initial_call (LogMissing i d name) = False"
| "is_initial_call (LogNoImputation name i d) = False"

fun is_step_call :: "effect \<Rightarrow> bool" where
  "is_step_call (CallbackStep vs template step check_nans) = True"
| "is_step_call (CallbackAccum vs step_type template start_step end_step param check_nans) =
     True"
| "is_step_call (CallbackInit fs params template shape) = False"
| "is_step_call (CallbackInitPlain fs) = False"
| "is_step_call (LogMissing i d name) = False"
| "is_step_call (LogNoImputation name i d) = False"

fun is_log :: "effect \<Rightarrow> bool" where
  "is_log (LogMissing i d name) = True"
| "is_log (LogNoImputation name i d) = True"
| "is_log (CallbackStep vs template step check_nans) = False"
| "is_log (CallbackAccum vs step_type template start_step end_step param check_nans) = False"
| "is_log (CallbackInit fs params template shape) = False"
| "is_log (CallbackInitPlain fs) = False"

text \<open>
  The number of calls one iteration makes when it succeeds: one per pair of
  \<^verbatim>\<open>zip(prognostic_data_from_retrieved_fields_mask, prognostic_params)\<close> and, with a
  non-empty diagnostic mask, one per diagnostic parameter.
\<close>

definition emissions_per_step :: "checkpoint \<Rightarrow> nat list \<Rightarrow> nat" where
  "emissions_per_step c ps =
     min (length ps) (length (prognostic_params c))
       + (if diagnostic_output_mask c = [] then 0 else length (diagnostic_params c))"

text \<open>
  The call that opens a run which gets as far as the callback: the template is the field
  at position \<^verbatim>\<open>variable_to_index["2t"]\<close> among the fields of the latest datetime, the
  shape is the number of grid points of the first field.
\<close>

definition opening_call :: "checkpoint \<Rightarrow> field list \<Rightarrow> effect" where
  "opening_call c input_fields =
     (if diagnostic_params c \<noteq> [] then
        CallbackInit input_fields (diagnostic_params c)
          (filter (\<lambda>f. valid_datetime f = valid_datetime (last input_fields)) input_fields
             ! the (variable_to_index c ''2t''))
          (length (field_values (hd input_fields)))
      else CallbackInitPlain input_fields)"

section \<open>Notions of the specification\<close>

text \<open>The number of kind-masks that contain a feature index.\<close>

definition mask_count :: "checkpoint \<Rightarrow> nat \<Rightarrow> nat" where
  "mask_count c i =
     (if i \<in> set (computed_constants_mask c) then 1 else 0)
     + (if i \<in> set (constants_from_input_mask c) then 1 else 0)
     + (if i \<in> set (computed_forcings_mask c) then 1 else 0)
     + (if i \<in> set (prognostic_input_mask c) then 1 else 0)"

definition masks_in_range :: "checkpoint \<Rightarrow> bool" where
  "masks_in_range c =
     (in_range (computed_constants_mask c) (num_input_features c)
      \<and> in_range (constants_from_input_mask c) (num_input_features c)
      \<and> in_range (computed_forcings_mask c) (num_input_features c)
      \<and> in_range (prognostic_input_mask c) (num_input_features c))"

text \<open>The uncovered indices in ascending order, and the log line of one of them.\<close>

definition uncovered :: "checkpoint \<Rightarrow> nat list" where
  "uncovered c = filter (\<lambda>i. mask_count c i = 0) [0..<num_input_features c]"

definition missing_line :: "checkpoint \<Rightarrow> nat \<Rightarrow> effect" where
  "missing_line c i =
     LogMissing i (the (model_to_data c i))
       (the (index_to_variable c (the (model_to_data c i))))"

text \<open>The display name of a feature, \<^verbatim>\<open>index_to_variable[model_to_data[i]]\<close>.\<close>

definition variable_name :: "checkpoint \<Rightarrow> nat \<Rightarrow> string option" where
  "variable_name c i =
     (case model_to_data c i of None \<Rightarrow> None | Some d \<Rightarrow> index_to_variable c d)"



section \<open>Sequencing\<close>

lemma then_do_ret [simp]: "then_do (ret x) f = f x"
  by (simp add: then_do_def ret_def split: prod.splits)

lemma then_do_raise [simp]: "then_do (raise e) f = raise e"
  by (simp add: then_do_def raise_def)

lemma then_do_lift_Inl [simp]: "then_do (lift (Inl e)) f = raise e"
  by (simp add: then_do_def lift_def raise_def)

lemma then_do_lift_Inr [simp]: "then_do (lift (Inr x)) f = f x"
  by (simp add: then_do_def lift_def split: prod.splits)

lemma then_do_emit [simp]: "then_do (emit ev) f = (ev # fst (f ()), snd (f ()))"
  by (simp add: then_do_def emit_def split: prod.splits)

lemma fst_then_do:
  "fst (then_do m f) = fst m @ (case snd m of Inl e \<Rightarrow> [] | Inr x \<Rightarrow> fst (f x))"
  by (cases m) (simp add: then_do_def split: sum.splits prod.splits)

lemma snd_then_do:
  "snd (then_do m f) = (case snd m of Inl e \<Rightarrow> Inl e | Inr x \<Rightarrow> snd (f x))"
  by (cases m) (simp add: then_do_def split: sum.splits prod.splits)

lemma then_do_Inr_iff:
  "then_do m f = (tr, Inr y) \<longleftrightarrow>
     (\<exists>tr1 x tr2. m = (tr1, Inr x) \<and> f x = (tr2, Inr y) \<and> tr = tr1 @ tr2)"
  by (cases m) (auto simp: then_do_def split: sum.splits prod.splits)

lemma then_do_lift_Inr_iff:
  "then_do (lift r) f = (tr, Inr y) \<longleftrightarrow> (\<exists>x. r = Inr x \<and> f x = (tr, Inr y))"
  by (cases r) (simp_all add: raise_def)

lemma and_then_Inl [simp]: "and_then (Inl e) f = Inl e"
  by (simp add: and_then_def)

lemma and_then_Inr [simp]: "and_then (Inr x) f = f x"
  by (simp add: and_then_def)

lemma and_then_Inr_iff: "and_then r f = Inr y \<longleftrightarrow> (\<exists>x. r = Inr x \<and> f x = Inr y)"
  by (cases r) simp_all

lemma snd_raise [simp]: "snd (raise e) = Inl e" and fst_raise [simp]: "fst (raise e) = []"
  by (simp_all add: raise_def)

lemma snd_ret [simp]: "snd (ret x) = Inr x" and fst_ret [simp]: "fst (ret x) = []"
  by (simp_all add: ret_def)

lemma snd_lift [simp]: "snd (lift r) = r" and fst_lift [simp]: "fst (lift r) = []"
  by (simp_all add: lift_def)

lemma snd_emit [simp]: "snd (emit ev) = Inr ()" and fst_emit [simp]: "fst (emit ev) = [ev]"
  by (simp_all add: emit_def)

lemma isl_then_do: "isl (snd m) \<Longrightarrow> isl (snd (then_do m f))"
  by (cases "snd m") (simp_all add: snd_then_do)

lemma isl_then_do_later: "(\<And>x. isl (snd (f x))) \<Longrightarrow> isl (snd (then_do m f))"
  by (cases "snd m") (simp_all add: snd_then_do)

section \<open>Arrays\<close>

lemma mk2_shape [simp]: "nrows (mk2 n m f) = n" "ncols (mk2 n m f) = m"
  by (simp_all add: mk2_def)

lemma elem_mk2 [simp]: "r < n \<Longrightarrow> g < m \<Longrightarrow> elem (mk2 n m f) r g = f r g"
  by (simp add: mk2_def elem_def)

lemma mk3_shape [simp]:
  "shape0 (mk3 n0 n1 n2 f) = n0" "shape1 (mk3 n0 n1 n2 f) = n1" "shape2 (mk3 n0 n1 n2 f) = n2"
  by (simp_all add: mk3_def)

lemma cell_mk3 [simp]:
  "a < n0 \<Longrightarrow> b < n1 \<Longrightarrow> d < n2 \<Longrightarrow> cell (mk3 n0 n1 n2 f) a b d = f a b d"
  by (simp add: mk3_def cell_def)

section \<open>Facts about the small configuration\<close>

lemma demo_hour_steps: "hour_steps demo_checkpoint = 6"
  by (simp add: demo_checkpoint_def hour_steps_def)

lemma demo_multi_step: "multi_step demo_checkpoint = 2"
  by (simp add: demo_checkpoint_def)
section \<open>The lag offsets\<close>

lemma sort_of_descending:
  fixes xs :: "int list"
  assumes "sorted (rev xs)"
  shows "sort xs = rev xs"
  using assms by (intro properties_for_sort) simp_all

lemma lag_offsets_descending:
  assumes "0 \<le> h"
  shows "sorted (rev (map (\<lambda>s. - s * h) (py_range m)))"
proof -
  have "sorted (map (\<lambda>k. - int (nat m - Suc k) * h) [0..<nat m])"
    unfolding sorted_iff_nth_mono
  proof (intro allI impI)
    fix i j assume ij: "i \<le> j" "j < length (map (\<lambda>k. - int (nat m - Suc k) * h) [0..<nat m])"
    then have "int (nat m - Suc j) \<le> int (nat m - Suc i)" by simp
    then have "int (nat m - Suc j) * h \<le> int (nat m - Suc i) * h"
      using assms by (rule mult_right_mono)
    with ij show "map (\<lambda>k. - int (nat m - Suc k) * h) [0..<nat m] ! i
        \<le> map (\<lambda>k. - int (nat m - Suc k) * h) [0..<nat m] ! j"
      by simp
  qed
  moreover have "rev (map (\<lambda>s. - s * h) (py_range m))
      = map (\<lambda>k. - int (nat m - Suc k) * h) [0..<nat m]"
    by (rule nth_equalityI) (simp_all add: py_range_def rev_nth)
  ultimately show ?thesis by simp
qed

lemma lagged_closed_form:
  assumes "0 \<le> hour_steps c"
  shows "lagged c = map (\<lambda>k. - int (nat (multi_step c) - Suc k) * hour_steps c)
           [0..<nat (multi_step c)]"
proof -
  have "lagged c = rev (map (\<lambda>s. - s * hour_steps c) (py_range (multi_step c)))"
    unfolding lagged_def by (rule sort_of_descending) (rule lag_offsets_descending [OF assms])
  also have "\<dots> = map (\<lambda>k. - int (nat (multi_step c) - Suc k) * hour_steps c)
           [0..<nat (multi_step c)]"
    by (rule nth_equalityI) (simp_all add: py_range_def rev_nth)
  finally show ?thesis .
qed

lemma length_lagged: "length (lagged c) = nat (multi_step c)"
  by (simp add: lagged_def py_range_def)

lemma plus_hours_Inr: "plus_hours d h = Inr d' \<Longrightarrow> d' = d + h * 3600000000"
  by (auto simp: plus_hours_def timedelta_hours_def datetime_add_def split: if_splits sum.splits)

lemma plus_hours_zero:
  "datetime_min \<le> d \<Longrightarrow> d \<le> datetime_max \<Longrightarrow> plus_hours d 0 = Inr d"
  by (simp add: plus_hours_def timedelta_hours_def datetime_add_def)

text \<open>
  Claim C10, as amended. For a step interval that is not negative and at least one lag, the
  lag-offset list is \<open>[-(multi_step-1)*hour_steps, ..., -hour_steps, 0]\<close>: it has
  \<open>multi_step\<close> elements, it is sorted, every element is a non-positive multiple of
  \<open>hour_steps\<close>, its last and greatest element is 0 and consecutive offsets differ by
  exactly \<open>hour_steps\<close>. So the forcing date of the newest lag slot is the start datetime,
  and the forcing dates of two consecutive lag slots, where line 180 computes both, are
  \<open>hour_steps\<close> hours apart.
\<close>

theorem lagged_offsets:
  assumes "0 \<le> hour_steps c" and "0 < multi_step c"
  shows "lagged c = map (\<lambda>k. - (multi_step c - 1 - int k) * hour_steps c)
            [0..<nat (multi_step c)]
    \<and> int (length (lagged c)) = multi_step c
    \<and> sorted (lagged c)
    \<and> (\<forall>x \<in> set (lagged c). x \<le> 0 \<and> hour_steps c dvd x)
    \<and> last (lagged c) = 0
    \<and> Max (set (lagged c)) = 0
    \<and> (\<forall>i. Suc i < length (lagged c) \<longrightarrow> lagged c ! Suc i - lagged c ! i = hour_steps c)
    \<and> (datetime_min \<le> start_datetime \<and> start_datetime \<le> datetime_max \<longrightarrow>
          lag_date c start_datetime (length (lagged c) - 1) = Inr start_datetime)
    \<and> (\<forall>i d d'. Suc i < length (lagged c) \<and> lag_date c start_datetime i = Inr d
            \<and> lag_date c start_datetime (Suc i) = Inr d' \<longrightarrow>
          d' - d = hour_steps c * 3600000000)"
proof -
  let ?m = "nat (multi_step c)" and ?h = "hour_steps c"
  have cf: "lagged c = map (\<lambda>k. - int (?m - Suc k) * ?h) [0..<?m]"
    by (rule lagged_closed_form [OF assms(1)])
  have len: "length (lagged c) = ?m" by (rule length_lagged)
  have nth: "lagged c ! k = - int (?m - Suc k) * ?h" if "k < ?m" for k
  proof -
    have "map (\<lambda>k. - int (?m - Suc k) * ?h) [0..<?m] ! k = - int (?m - Suc (0 + k)) * ?h"
      using that by (intro nth_map_upt) simp
    then show ?thesis by (simp only: cf add_0)
  qed
  have c1: "lagged c = map (\<lambda>k. - (multi_step c - 1 - int k) * ?h) [0..<?m]"
    unfolding cf
  proof (rule map_cong [OF refl])
    fix k assume "k \<in> set [0..<?m]"
    then have "int (?m - Suc k) = multi_step c - 1 - int k" using assms(2) by auto
    then show "- int (?m - Suc k) * ?h = - (multi_step c - 1 - int k) * ?h"
      by (rule arg_cong [where f = "\<lambda>x. - x * ?h"])
  qed
  have c2: "int (length (lagged c)) = multi_step c" using assms(2) by (simp add: len)
  have c3: "sorted (lagged c)" by (simp add: lagged_def)
  have c4: "\<forall>x \<in> set (lagged c). x \<le> 0 \<and> ?h dvd x"
  proof
    fix x assume "x \<in> set (lagged c)"
    then obtain k where "k < length (lagged c)" and "x = lagged c ! k"
      by (metis in_set_conv_nth)
    then have x: "x = - int (?m - Suc k) * ?h" using nth [of k] by (simp only: len)
    have "0 \<le> int (?m - Suc k) * ?h" using assms(1) by (intro mult_nonneg_nonneg) simp_all
    then show "x \<le> 0 \<and> ?h dvd x" unfolding x by simp
  qed
  have ne: "lagged c \<noteq> []" using assms(2) len by auto
  have c5: "last (lagged c) = 0"
    using assms(2) nth [of "?m - 1"] by (simp add: last_conv_nth [OF ne] len)
  have c6: "Max (set (lagged c)) = 0"
  proof (rule Max_eqI)
    show "finite (set (lagged c))" by simp
    show "y \<le> 0" if "y \<in> set (lagged c)" for y using c4 that by blast
    show "0 \<in> set (lagged c)" using c5 last_in_set [OF ne] by simp
  qed
  have c7: "lagged c ! Suc i - lagged c ! i = ?h" if "Suc i < length (lagged c)" for i
  proof -
    from that have i: "Suc i < ?m" by (simp add: len)
    then have "int (?m - Suc i) = int (?m - Suc (Suc i)) + 1" by simp
    then show ?thesis using i by (simp add: nth algebra_simps)
  qed
  have c8: "lag_date c start_datetime (length (lagged c) - 1) = Inr start_datetime"
    if "datetime_min \<le> start_datetime \<and> start_datetime \<le> datetime_max"
    using c5 that by (simp add: lag_date_def last_conv_nth [OF ne] plus_hours_zero)
  have c9: "d' - d = ?h * 3600000000"
    if "Suc i < length (lagged c) \<and> lag_date c start_datetime i = Inr d
            \<and> lag_date c start_datetime (Suc i) = Inr d'" for i d d'
  proof -
    from that have "d = start_datetime + lagged c ! i * 3600000000"
      and "d' = start_datetime + lagged c ! Suc i * 3600000000"
      by (auto simp: lag_date_def dest: plus_hours_Inr)
    then have "d' - d = (lagged c ! Suc i - lagged c ! i) * 3600000000"
      by (simp add: algebra_simps)
    with c7 [of i] that show ?thesis by simp
  qed
  from c1 c2 c3 c4 c5 c6 c7 c8 c9 show ?thesis by blast
qed


theorem lagged_offsets_witness:
  "0 \<le> hour_steps demo_checkpoint \<and> 0 < multi_step demo_checkpoint
   \<and> lagged demo_checkpoint = [- 6, 0]
   \<and> lag_date demo_checkpoint 0 1 = Inr 0
   \<and> lag_date demo_checkpoint 0 0 = Inr (- 21600000000)"
proof -
  have h: "0 \<le> hour_steps demo_checkpoint" "0 < multi_step demo_checkpoint"
    by (simp_all add: demo_hour_steps demo_multi_step)
  note facts = lagged_offsets [OF h, of 0]
  from facts have a: "lagged demo_checkpoint = [- 6, 0]"
    by (simp add: demo_hour_steps demo_multi_step upt_conv_Cons)
  have r: "datetime_min \<le> 0 \<and> (0::int) \<le> datetime_max"
    by (simp add: datetime_min_def datetime_max_def)
  from facts r have "lag_date demo_checkpoint 0 (length (lagged demo_checkpoint) - 1) = Inr 0"
    by blast
  then have b: "lag_date demo_checkpoint 0 1 = Inr 0" unfolding a by simp
  have d: "lag_date demo_checkpoint 0 0 = Inr (- 21600000000)"
    by (simp add: lag_date_def a plus_hours_def timedelta_hours_def datetime_add_def
        datetime_min_def datetime_max_def)
  from h a b d show ?thesis by blast
qed

text \<open>
  With a step of minus six hours and two lags the offsets are 0 and 6: they are not
  non-positive, the greatest is 6, and the forcing date of the newest lag slot is six
  hours after the start datetime.
\<close>

theorem lagged_negative_step:
  "lagged backward_checkpoint = [0, 6]
   \<and> Max (set (lagged backward_checkpoint)) = 6
   \<and> last (lagged backward_checkpoint) = 6
   \<and> lag_date backward_checkpoint 0 1 = Inr 21600000000"
proof -
  have a: "lagged backward_checkpoint = [0, 6]" by code_simp
  have b: "lag_date backward_checkpoint 0 1 = Inr 21600000000"
    by (simp add: lag_date_def a plus_hours_def timedelta_hours_def datetime_add_def
        datetime_min_def datetime_max_def)
  from a b show ?thesis by simp
qed

section \<open>The calls of one iteration and of the loop\<close>

lemma prognostic_loop_trace:
  "list_all (\<lambda>ev. is_step_call ev \<and> effect_step ev = Some step)
     (fst (prognostic_loop sc y step xs))
   \<and> (isl (snd (prognostic_loop sc y step xs))
        \<or> length (fst (prognostic_loop sc y step xs)) = length xs)"
proof (induction xs)
  case Nil
  show ?case by simp
next
  case (Cons x xs)
  obtain n m param where x: "x = (n, m, param)" by (cases x)
  from Cons show ?case by (simp add: x)
qed

lemma diagnostic_loop_trace:
  "list_all (\<lambda>ev. is_step_call ev \<and> effect_step ev = Some step)
     (fst (diagnostic_loop sc y step xs acc))
   \<and> (isl (snd (diagnostic_loop sc y step xs acc))
        \<or> length (fst (diagnostic_loop sc y step xs acc)) = length xs)"
proof (induction xs arbitrary: acc)
  case Nil
  show ?case by simp
next
  case (Cons x xs)
  obtain n param where x: "x = (n, param)" by (cases x)
  from Cons show ?case by (simp add: x)
qed

lemma rollout_step_trace:
  "list_all (\<lambda>ev. is_step_call ev \<and> effect_step ev = Some ((i + 1) * hour_steps (sc_checkpoint sc)))
     (fst (rollout_step sc ld predict_step i st))
   \<and> (isl (snd (rollout_step sc ld predict_step i st))
        \<or> length (fst (rollout_step sc ld predict_step i st))
            = emissions_per_step (sc_checkpoint sc) (sc_prognostic_data sc))"
  using prognostic_loop_trace [of "(i + 1) * hour_steps (sc_checkpoint sc)" sc "predict_step (fst st)"
      "zip [0..<length (sc_prognostic_data sc)]
         (zip (sc_prognostic_data sc) (prognostic_params (sc_checkpoint sc)))"]
    diagnostic_loop_trace [of "(i + 1) * hour_steps (sc_checkpoint sc)" sc "predict_step (fst st)"
      "zip [0..<length (diagnostic_params (sc_checkpoint sc))] (diagnostic_params (sc_checkpoint sc))" "snd st"]
  by (auto simp: rollout_step_def Let_def fst_then_do snd_then_do emissions_per_step_def
      split: sum.splits)

lemma tagged_map:
  "list_all (\<lambda>ev. P ev \<and> f ev = v) tr \<Longrightarrow> map f tr = replicate (length tr) v"
  by (induction tr) simp_all

lemma rollout_trace:
  "list_all is_step_call (fst (rollout sc ld predict_step is st))
   \<and> (isl (snd (rollout sc ld predict_step is st))
        \<or> map effect_step (fst (rollout sc ld predict_step is st))
            = concat (map (\<lambda>i. replicate (emissions_per_step (sc_checkpoint sc) (sc_prognostic_data sc))
                  (Some ((i + 1) * hour_steps (sc_checkpoint sc)))) is))"
proof (induction "is" arbitrary: st)
  case Nil
  show ?case by simp
next
  case (Cons i rest)
  note s = rollout_step_trace [of i sc ld predict_step st]
  from s have a: "list_all is_step_call (fst (rollout_step sc ld predict_step i st))"
    by (simp add: list_all_iff)
  show ?case
  proof (cases "snd (rollout_step sc ld predict_step i st)")
    case (Inl e)
    with a show ?thesis by (simp add: fst_then_do snd_then_do)
  next
    case (Inr st')
    with s have "map effect_step (fst (rollout_step sc ld predict_step i st))
        = replicate (emissions_per_step (sc_checkpoint sc) (sc_prognostic_data sc))
            (Some ((i + 1) * hour_steps (sc_checkpoint sc)))"
      using tagged_map [of is_step_call effect_step
          "Some ((i + 1) * hour_steps (sc_checkpoint sc))" "fst (rollout_step sc ld predict_step i st)"]
      by simp
    with a Inr Cons.IH [of st'] show ?thesis
      by (auto simp: fst_then_do snd_then_do)
  qed
qed

lemma report_missing_fails: "isl (snd (report_missing c chk xs))"
  by (induction xs) (simp_all add: snd_then_do split: option.splits)

lemma report_missing_logs: "list_all is_log (fst (report_missing c chk xs))"
  by (induction xs) (simp_all add: split: option.splits)

lemma classify_trace:
  "list_all is_log (fst (classify c)) \<and> (isl (snd (classify c)) \<or> fst (classify c) = [])"
  using report_missing_fails report_missing_logs
  by (auto simp: classify_def fst_then_do snd_then_do split: sum.splits)

lemma nan_check_trace:
  "list_all is_log (fst (nan_check c t xs s)) \<and> (isl (snd (nan_check c t xs s)) \<or> fst (nan_check c t xs s) = [])"
  by (induction xs arbitrary: s) (simp_all add: snd_then_do split: option.splits)


lemma load_input_shape2:
  "load_input c fs = Inr a \<Longrightarrow> shape2 a = length (field_values (hd fs)) \<and> shape0 a = length (lagged c) \<and> fs \<noteq> []"
  by (auto simp: load_input_def Let_def split: list.splits if_splits)

lemma get_most_recent_datetime_Inr:
  "get_most_recent_datetime fs = Inr d \<Longrightarrow> d = valid_datetime (last fs)"
  by (auto simp: get_most_recent_datetime_def Let_def split: list.splits if_splits)

lemma get_precip_template_Inr:
  "get_precip_template c refs = Inr f \<Longrightarrow> f = refs ! the (variable_to_index c ''2t'')"
  by (auto simp: get_precip_template_def split: option.splits if_splits)

lemma initial_callback_cases:
  "initial_callback c fs tmpl acc = raise IndexError \<or>
   initial_callback c fs tmpl acc =
     emit (if diagnostic_params c \<noteq> [] then CallbackInit fs (diagnostic_params c) tmpl (ncols acc)
           else CallbackInitPlain fs)"
  by (simp add: initial_callback_def)

lemma run_with_cases:
  fixes c ld predict_step input_fields lead_time start_datetime
  defines "R \<equiv> run_with c ld predict_step input_fields lead_time start_datetime"
  shows "(isl (snd R) \<and> list_all is_log (fst R))
   \<or> (\<exists>rest ps. fst R = opening_call c input_fields # rest \<and> list_all is_step_call rest
        \<and> (isl (snd R) \<or> (hour_steps c \<noteq> 0 \<and> map effect_step rest =
             concat (map (\<lambda>i. replicate (emissions_per_step c ps) (Some ((i + 1) * hour_steps c)))
                (py_range (lead_time div hour_steps c))))))"
proof (cases "load_input c input_fields")
  case (Inl e) then show ?thesis by (simp add: R_def run_with_def)
next
  case a: (Inr a)
  show ?thesis
  proof (cases "snd (classify c)")
    case (Inl e)
    then show ?thesis using classify_trace [of c]
      by (simp add: R_def run_with_def a fst_then_do snd_then_do)
  next
    case cl: (Inr cl)
    then have ctr: "fst (classify c) = []" using classify_trace [of c] by auto
    then have ceq: "classify c = lift (Inr cl)" using cl by (simp add: lift_def prod_eq_iff)
    show ?thesis
    proof (cases "retrieved_masks cl")
      case (Inl e) then show ?thesis by (simp add: R_def run_with_def a ceq)
    next
      case pk: (Inr pk)
      show ?thesis
      proof (cases "assemble c ld input_fields start_datetime a (fst pk) (snd pk)")
        case (Inl e) then show ?thesis by (simp add: R_def run_with_def a ceq pk)
      next
        case t: (Inr t)
        show ?thesis
        proof (cases "snd (validate c t)")
          case (Inl e)
          then show ?thesis using nan_check_trace [of c t "[0..<shape1 t]" "{}"]
            by (simp add: R_def run_with_def a ceq pk t fst_then_do snd_then_do validate_def)
        next
          case tv: (Inr tv)
          then have "fst (validate c t) = []"
            using nan_check_trace [of c t "[0..<shape1 t]" "{}"] by (auto simp: validate_def)
          then have veq: "validate c t = lift (Inr tv)" using tv by (simp add: lift_def prod_eq_iff)
          show ?thesis
          proof (cases "get_most_recent_datetime input_fields")
            case (Inl e) then show ?thesis by (simp add: R_def run_with_def a ceq pk t veq)
          next
            case d: (Inr d)
            show ?thesis
            proof (cases "get_precip_template c (filter (\<lambda>f. valid_datetime f = d) input_fields)")
              case (Inl e) then show ?thesis by (simp add: R_def run_with_def a ceq pk t veq d)
            next
              case p: (Inr p)
              let ?acc = "mk2 (length (diagnostic_output_mask c)) (shape2 a) (\<lambda>r g. Num 0)"
              from initial_callback_cases [of c input_fields p ?acc]
              show ?thesis
              proof
                assume "initial_callback c input_fields p ?acc = raise IndexError"
                then show ?thesis by (simp add: R_def run_with_def a ceq pk t veq d p)
              next
                assume "initial_callback c input_fields p ?acc =
                  emit (if diagnostic_params c \<noteq> [] then CallbackInit input_fields (diagnostic_params c) p (ncols ?acc)
                        else CallbackInitPlain input_fields)"
                moreover have "(if diagnostic_params c \<noteq> [] then CallbackInit input_fields (diagnostic_params c) p (ncols ?acc)
                        else CallbackInitPlain input_fields) = opening_call c input_fields"
                  using load_input_shape2 [OF a] get_most_recent_datetime_Inr [OF d]
                    get_precip_template_Inr [OF p]
                  by (simp add: opening_call_def)
                ultimately have i: "initial_callback c input_fields p ?acc = emit (opening_call c input_fields)"
                  by simp
                show ?thesis
                proof (cases "hour_steps c = 0")
                  case True
                  then show ?thesis
                    by (simp add: R_def run_with_def a ceq pk t veq d p i loop_indices_def raise_def)
                next
                  case False
                  let ?sc = "\<lparr>sc_checkpoint = c, sc_input_fields = input_fields,
                     sc_start_datetime = start_datetime, sc_prognostic_data = fst pk,
                     sc_most_recent_datetime = d,
                     sc_reference_fields = filter (\<lambda>f. valid_datetime f = d) input_fields,
                     sc_precip_template = p\<rparr>"
                  from rollout_trace [of ?sc ld predict_step "py_range (lead_time div hour_steps c)" "(swapaxes (fst tv), ?acc)"]
                  show ?thesis using False
                    by (auto simp add: R_def run_with_def a ceq pk t veq d p i loop_indices_def
                        fst_then_do snd_then_do split: sum.splits)
                qed
              qed
            qed
          qed
        qed
      qed
    qed
  qed
qed


section \<open>Steps of the loop\<close>


lemma demo_run:
  "run_with demo_checkpoint demo_loader demo_model demo_fields 12 0 =
    ([CallbackInit demo_fields [''tp''] (demo_field 0 40) 2,
      CallbackStep [Num 100, Num 101] (demo_field 0 40) 6 True,
      CallbackStep [Num 200, Num 201] (demo_field 0 50) 6 True,
      CallbackAccum [Num 0, Num 2] ''accum'' (demo_field 0 40) 0 6 ''tp'' True,
      CallbackStep [Num 100, Num 101] (demo_field 0 40) 12 True,
      CallbackStep [Num 200, Num 201] (demo_field 0 50) 12 True,
      CallbackAccum [Num 0, Num 4] ''accum'' (demo_field 0 40) 0 12 ''tp'' True],
     Inr ())"
  by code_simp


section \<open>The first call of the callback\<close>

text \<open>
  Claim C8. A run either fails before it reaches the callback, having logged at most error
  lines, or its trace starts with the initialisation call and continues with per-step
  calls only. A run that returns normally makes exactly one initialisation call, before
  every per-step call. With diagnostic parameters the call carries the input fields, the
  diagnostic parameter list, the template field and the shape of one accumulator row;
  without them it carries the input fields alone.
\<close>

theorem initialization_call:
  fixes c ld predict_step input_fields lead_time start_datetime
  defines "R \<equiv> run_with c ld predict_step input_fields lead_time start_datetime"
  shows "((isl (snd R) \<and> list_all is_log (fst R))
           \<or> (\<exists>rest. fst R = opening_call c input_fields # rest \<and> list_all is_step_call rest))
    \<and> (snd R = Inr () \<longrightarrow>
          (\<exists>rest. fst R = opening_call c input_fields # rest \<and> list_all is_step_call rest)
          \<and> filter is_initial_call (fst R) = [opening_call c input_fields])
    \<and> (diagnostic_params c \<noteq> [] \<longrightarrow>
          opening_call c input_fields =
            CallbackInit input_fields (diagnostic_params c)
              (filter (\<lambda>f. valid_datetime f = valid_datetime (last input_fields)) input_fields
                 ! the (variable_to_index c ''2t''))
              (length (field_values (hd input_fields))))
    \<and> (diagnostic_params c = [] \<longrightarrow> opening_call c input_fields = CallbackInitPlain input_fields)"
proof -
  have step_not_init: "filter is_initial_call rest = []" if "list_all is_step_call rest" for rest
    using that
  proof (induction rest)
    case Nil show ?case by simp
  next
    case (Cons ev rest) then show ?case by (cases ev) simp_all
  qed
  have init: "is_initial_call (opening_call c input_fields)"
    by (simp add: opening_call_def)
  from run_with_cases [of c ld predict_step input_fields lead_time start_datetime]
  have a: "(isl (snd R) \<and> list_all is_log (fst R))
           \<or> (\<exists>rest. fst R = opening_call c input_fields # rest \<and> list_all is_step_call rest)"
    unfolding R_def by blast
  have b: "(\<exists>rest. fst R = opening_call c input_fields # rest \<and> list_all is_step_call rest)
          \<and> filter is_initial_call (fst R) = [opening_call c input_fields]"
    if "snd R = Inr ()"
  proof -
    from a that obtain rest where r: "fst R = opening_call c input_fields # rest"
      "list_all is_step_call rest" by auto
    with step_not_init [of rest] init show ?thesis by simp
  qed
  from a b show ?thesis by (simp add: opening_call_def)
qed

theorem initialization_call_witness:
  "snd (run_with demo_checkpoint demo_loader demo_model demo_fields 12 0) = Inr ()
   \<and> diagnostic_params demo_checkpoint \<noteq> []
   \<and> filter is_initial_call (fst (run_with demo_checkpoint demo_loader demo_model demo_fields 12 0))
       = [CallbackInit demo_fields [''tp''] (demo_field 0 40) 2]
   \<and> hd (fst (run_with demo_checkpoint demo_loader demo_model demo_fields 12 0))
       = CallbackInit demo_fields [''tp''] (demo_field 0 40) 2"
proof -
  have ok: "snd (run_with demo_checkpoint demo_loader demo_model demo_fields 12 0) = Inr ()"
    by (simp add: demo_run)
  have d: "diagnostic_params demo_checkpoint \<noteq> []" by (simp add: demo_checkpoint_def)
  note facts = initialization_call [of demo_checkpoint demo_loader demo_model demo_fields 12 0]
  from facts ok have "filter is_initial_call (fst (run_with demo_checkpoint demo_loader demo_model demo_fields 12 0))
       = [opening_call demo_checkpoint demo_fields]" by blast
  moreover from facts ok have "\<exists>rest. fst (run_with demo_checkpoint demo_loader demo_model demo_fields 12 0)
       = opening_call demo_checkpoint demo_fields # rest" by blast
  moreover have "opening_call demo_checkpoint demo_fields = CallbackInit demo_fields [''tp''] (demo_field 0 40) 2"
    by code_simp
  ultimately show ?thesis using ok d by auto
qed


section \<open>A runner made from a path\<close>

text \<open>
  Claim C9. \<^verbatim>\<open>__init__\<close> stores the checkpoint only in the branch that receives a
  \<^verbatim>\<open>Checkpoint\<close> instance; in the branch of a string path the new object stays in a
  local variable. So when the constructor of \<^verbatim>\<open>Checkpoint\<close> returns and has not itself
  set the attribute on the runner it was given, the runner has no attribute
  \<^verbatim>\<open>checkpoint\<close>, and every call of \<^verbatim>\<open>run\<close> raises AttributeError before any effect.
\<close>

theorem runner_from_path:
  assumes "new_checkpoint \<lparr>self_checkpoint = None\<rparr> p = Inr (\<lparr>self_checkpoint = None\<rparr>, ck)"
  shows "Runner_init new_checkpoint (Path p) = Inr \<lparr>self_checkpoint = None\<rparr>
    \<and> run \<lparr>self_checkpoint = None\<rparr> ld predict_step input_fields lead_time start_datetime
        = ([], Inl AttributeError)
    \<and> Runner_init new_checkpoint (Instance ck') = Inr \<lparr>self_checkpoint = Some ck'\<rparr>
    \<and> (\<forall>self. Runner_init new_checkpoint (Path p) = Inr self \<longrightarrow>
          (\<exists>lc. new_checkpoint \<lparr>self_checkpoint = None\<rparr> p = Inr (self, lc)))"
proof -
  have a: "Runner_init new_checkpoint (Path p) = Inr \<lparr>self_checkpoint = None\<rparr>"
    by (simp add: Runner_init_def assms)
  have b: "run \<lparr>self_checkpoint = None\<rparr> ld predict_step input_fields lead_time start_datetime
        = ([], Inl AttributeError)"
    by (simp add: run_def raise_def)
  have d: "Runner_init new_checkpoint (Instance ck') = Inr \<lparr>self_checkpoint = Some ck'\<rparr>"
    by (simp add: Runner_init_def)
  have e: "\<exists>lc. new_checkpoint \<lparr>self_checkpoint = None\<rparr> p = Inr (self, lc)"
    if "Runner_init new_checkpoint (Path p) = Inr self" for self
    using that assms unfolding a by auto
  from a b d e show ?thesis by blast
qed

theorem runner_from_path_witness:
  "(\<lambda>self p. Inr (self, demo_checkpoint)) \<lparr>self_checkpoint = None\<rparr> ''ckpt''
      = Inr (\<lparr>self_checkpoint = None\<rparr>, demo_checkpoint)
   \<and> Runner_init (\<lambda>self p. Inr (self, demo_checkpoint)) (Path ''ckpt'')
      = Inr \<lparr>self_checkpoint = None\<rparr>
   \<and> run \<lparr>self_checkpoint = None\<rparr> demo_loader demo_model demo_fields 12 0
      = ([], Inl AttributeError)"
proof -
  have h: "(\<lambda>self p. Inr (self, demo_checkpoint)) \<lparr>self_checkpoint = None\<rparr> ''ckpt''
      = Inr (\<lparr>self_checkpoint = None\<rparr>, demo_checkpoint)"
    by simp
  note facts = runner_from_path [of "\<lambda>self p. Inr (self, demo_checkpoint)" "''ckpt''"
      demo_checkpoint demo_loader demo_model demo_fields 12 0, OF h]
  from facts have a: "Runner_init (\<lambda>self p. Inr (self, demo_checkpoint)) (Path ''ckpt'')
      = Inr \<lparr>self_checkpoint = None\<rparr>"
    by (rule conjunct1)
  from facts have b: "run \<lparr>self_checkpoint = None\<rparr> demo_loader demo_model demo_fields 12 0
      = ([], Inl AttributeError)"
    by (rule conjunct1 [OF conjunct2])
  show ?thesis by (intro conjI h a b)
qed

section \<open>Temporal ordering\<close>

lemma get_most_recent_datetime_later:
  assumes "f \<in> set input_fields" and "valid_datetime (last input_fields) < valid_datetime f"
  shows "get_most_recent_datetime input_fields = Inl AssertionError"
proof -
  from assms(1) obtain x xs where "input_fields = x # xs" by (cases input_fields) auto
  moreover have "\<not> list_all (\<lambda>g. valid_datetime g \<le> valid_datetime (last input_fields)) input_fields"
    using assms by (auto simp: list_all_iff not_le intro!: bexI [of _ f])
  ultimately show ?thesis by (simp add: get_most_recent_datetime_def Let_def)
qed

lemma run_with_unordered:
  assumes "get_most_recent_datetime input_fields = Inl e"
  shows "isl (snd (run_with c ld predict_step input_fields lead_time start_datetime))"
  unfolding run_with_def
  apply (rule isl_then_do_later)
  apply (rule isl_then_do_later)
  apply (rule isl_then_do_later)
  apply (rule isl_then_do_later)
  apply (rule isl_then_do_later)
  apply (rule isl_then_do)
  apply (simp add: assms)
  done

lemma prognostic_loop_mismatch:
  assumes "(n, m, param) \<in> set xs" and "m < length (sc_reference_fields sc)"
    and "valid_datetime (sc_reference_fields sc ! m) \<noteq> sc_most_recent_datetime sc"
  shows "isl (snd (prognostic_loop sc y step xs))"
  using assms(1)
proof (induction xs)
  case Nil then show ?case by simp
next
  case (Cons x xs)
  obtain n' m' param' where x: "x = (n', m', param')" by (cases x)
  show ?case
  proof (cases "x = (n, m, param)")
    case True with assms(2,3) show ?thesis by simp
  next
    case False
    with Cons have "isl (snd (prognostic_loop sc y step xs))" by simp
    then show ?thesis by (simp add: x)
  qed
qed

lemma diagnostic_loop_mismatch:
  assumes "xs \<noteq> []"
    and "valid_datetime (sc_precip_template sc) \<noteq> sc_most_recent_datetime sc"
  shows "isl (snd (diagnostic_loop sc y step xs acc))"
proof -
  from assms(1) obtain n param rest where "xs = (n, param) # rest" by (cases xs) auto
  with assms(2) show ?thesis by simp
qed

text \<open>
  Claim C7. When some retrieved field has a valid datetime later than that of the last
  field, \<^verbatim>\<open>get_most_recent_datetime\<close> fails its assertion and the run fails. In an
  iteration of the loop, a template field of a prognostic emission whose valid datetime
  differs from the most recent datetime fails the assertion of line 307, and the fixed
  template of the accumulated emissions fails the assertion of line 322; the iteration
  and with it the loop fail.
\<close>

theorem temporal_ordering:
  "(f \<in> set input_fields \<and> valid_datetime (last input_fields) < valid_datetime f \<longrightarrow>
      get_most_recent_datetime input_fields = Inl AssertionError
      \<and> isl (snd (run_with c ld predict_step input_fields lead_time start_datetime)))
   \<and> (m < length (sc_reference_fields sc)
        \<and> valid_datetime (sc_reference_fields sc ! m) \<noteq> sc_most_recent_datetime sc \<longrightarrow>
      prognostic_loop sc y step ((n, m, param) # rest) = ([], Inl AssertionError))
   \<and> ((n, m, param) \<in> set (zip [0..<length (sc_prognostic_data sc)]
           (zip (sc_prognostic_data sc) (prognostic_params (sc_checkpoint sc))))
        \<and> m < length (sc_reference_fields sc)
        \<and> valid_datetime (sc_reference_fields sc ! m) \<noteq> sc_most_recent_datetime sc \<longrightarrow>
      isl (snd (rollout_step sc ld predict_step i st))
      \<and> isl (snd (rollout sc ld predict_step (i # is) st)))
   \<and> (n < nrows acc \<and> n < length (diagnostic_output_mask (sc_checkpoint sc))
        \<and> broadcastable (nrows y) (ncols acc)
        \<and> valid_datetime (sc_precip_template sc) \<noteq> sc_most_recent_datetime sc \<longrightarrow>
      diagnostic_loop sc y step ((n, dparam) # drest) acc = ([], Inl AssertionError))
   \<and> (diagnostic_output_mask (sc_checkpoint sc) \<noteq> [] \<and> diagnostic_params (sc_checkpoint sc) \<noteq> []
        \<and> valid_datetime (sc_precip_template sc) \<noteq> sc_most_recent_datetime sc \<longrightarrow>
      isl (snd (rollout_step sc ld predict_step i st))
      \<and> isl (snd (rollout sc ld predict_step (i # is) st)))"
proof -
  let ?c = "sc_checkpoint sc"
  let ?y = "predict_step (fst st)"
  let ?step = "(i + 1) * hour_steps ?c"
  let ?pl = "prognostic_loop sc ?y ?step (zip [0..<length (sc_prognostic_data sc)]
           (zip (sc_prognostic_data sc) (prognostic_params ?c)))"
  have step_fail: "isl (snd (rollout sc ld predict_step (i # is) st))"
    if "isl (snd (rollout_step sc ld predict_step i st))"
    using that by (simp add: isl_then_do)
  have a: "f \<in> set input_fields \<and> valid_datetime (last input_fields) < valid_datetime f \<longrightarrow>
      get_most_recent_datetime input_fields = Inl AssertionError
      \<and> isl (snd (run_with c ld predict_step input_fields lead_time start_datetime))"
    using get_most_recent_datetime_later [of f input_fields]
      run_with_unordered [of input_fields AssertionError c ld predict_step lead_time start_datetime]
    by simp
  have b: "m < length (sc_reference_fields sc)
        \<and> valid_datetime (sc_reference_fields sc ! m) \<noteq> sc_most_recent_datetime sc \<longrightarrow>
      prognostic_loop sc y step ((n, m, param) # rest) = ([], Inl AssertionError)"
    by (simp add: raise_def)
  have p: "(n, m, param) \<in> set (zip [0..<length (sc_prognostic_data sc)]
           (zip (sc_prognostic_data sc) (prognostic_params (sc_checkpoint sc))))
        \<and> m < length (sc_reference_fields sc)
        \<and> valid_datetime (sc_reference_fields sc ! m) \<noteq> sc_most_recent_datetime sc \<longrightarrow>
      isl (snd (rollout_step sc ld predict_step i st))
      \<and> isl (snd (rollout sc ld predict_step (i # is) st))"
  proof (intro impI, elim conjE)
    assume h: "(n, m, param) \<in> set (zip [0..<length (sc_prognostic_data sc)]
           (zip (sc_prognostic_data sc) (prognostic_params (sc_checkpoint sc))))"
      "m < length (sc_reference_fields sc)"
      "valid_datetime (sc_reference_fields sc ! m) \<noteq> sc_most_recent_datetime sc"
    have "isl (snd ?pl)" by (rule prognostic_loop_mismatch [OF h])
    then have "isl (snd (rollout_step sc ld predict_step i st))"
      by (simp add: rollout_step_def Let_def isl_then_do)
    with step_fail show "isl (snd (rollout_step sc ld predict_step i st))
      \<and> isl (snd (rollout sc ld predict_step (i # is) st))" by simp
  qed
  have d: "n < nrows acc \<and> n < length (diagnostic_output_mask (sc_checkpoint sc))
        \<and> broadcastable (nrows y) (ncols acc)
        \<and> valid_datetime (sc_precip_template sc) \<noteq> sc_most_recent_datetime sc \<longrightarrow>
      diagnostic_loop sc y step ((n, dparam) # drest) acc = ([], Inl AssertionError)"
    by (simp add: raise_def)
  have q: "diagnostic_output_mask (sc_checkpoint sc) \<noteq> [] \<and> diagnostic_params (sc_checkpoint sc) \<noteq> []
        \<and> valid_datetime (sc_precip_template sc) \<noteq> sc_most_recent_datetime sc \<longrightarrow>
      isl (snd (rollout_step sc ld predict_step i st))
      \<and> isl (snd (rollout sc ld predict_step (i # is) st))"
  proof (intro impI, elim conjE)
    assume h: "diagnostic_output_mask ?c \<noteq> []" "diagnostic_params ?c \<noteq> []"
      "valid_datetime (sc_precip_template sc) \<noteq> sc_most_recent_datetime sc"
    have "zip [0..<length (diagnostic_params ?c)] (diagnostic_params ?c) \<noteq> []"
      using h(2) by (cases "diagnostic_params ?c") (simp_all add: upt_conv_Cons)
    from diagnostic_loop_mismatch [OF this h(3), of ?y ?step "snd st"]
    have "isl (snd (diagnostic_loop sc ?y ?step
        (zip [0..<length (diagnostic_params ?c)] (diagnostic_params ?c)) (snd st)))" .
    then obtain e where dl: "snd (diagnostic_loop sc ?y ?step
        (zip [0..<length (diagnostic_params ?c)] (diagnostic_params ?c)) (snd st)) = Inl e"
      by (auto simp: isl_def)
    have "isl (snd (rollout_step sc ld predict_step i st))"
    proof (cases "snd ?pl")
      case (Inl e)
      then show ?thesis by (simp add: rollout_step_def Let_def snd_then_do)
    next
      case (Inr u)
      with h(1) dl show ?thesis
        by (simp add: rollout_step_def Let_def snd_then_do isl_then_do)
    qed
    with step_fail show "isl (snd (rollout_step sc ld predict_step i st))
      \<and> isl (snd (rollout sc ld predict_step (i # is) st))" by simp
  qed
  show ?thesis by (intro conjI a b p d q)
qed


theorem temporal_ordering_witness:
  "demo_field 0 40 \<in> set [demo_field 0 40, demo_field (- 6) 10]
   \<and> valid_datetime (last [demo_field 0 40, demo_field (- 6) 10]) < valid_datetime (demo_field 0 40)
   \<and> get_most_recent_datetime [demo_field 0 40, demo_field (- 6) 10] = Inl AssertionError
   \<and> isl (snd (run_with demo_checkpoint demo_loader demo_model
                 [demo_field 0 40, demo_field (- 6) 10] 12 0))
   \<and> valid_datetime (sc_reference_fields drifted_scope ! 0) \<noteq> sc_most_recent_datetime drifted_scope
   \<and> prognostic_loop drifted_scope (demo_model (mk3 2 2 5 (\<lambda>l g i. Num 0))) 6 [(0, 0, ''2t'')]
        = ([], Inl AssertionError)
   \<and> isl (snd (rollout_step drifted_scope demo_loader demo_model 0
                 (mk3 2 2 5 (\<lambda>l g i. Num 0), mk2 1 2 (\<lambda>r g. Num 0))))
   \<and> diagnostic_loop drifted_scope (demo_model (mk3 2 2 5 (\<lambda>l g i. Num 0))) 6 [(0, ''tp'')]
         (mk2 1 2 (\<lambda>r g. Num 0))
        = ([], Inl AssertionError)"
proof -
  let ?fs = "[demo_field 0 40, demo_field (- 6) 10]"
  let ?t = "mk3 2 2 5 (\<lambda>l g i. Num 0)"
  let ?acc = "mk2 1 2 (\<lambda>r g. Num 0)"
  note facts = temporal_ordering [of "demo_field 0 40" ?fs demo_checkpoint demo_loader demo_model
      12 0 0 drifted_scope "demo_model ?t" 6 0 "''2t''" "[]" 0 "(?t, ?acc)" "[]" ?acc "''tp''" "[]"]
  have h1: "demo_field 0 40 \<in> set ?fs
     \<and> valid_datetime (last ?fs) < valid_datetime (demo_field 0 40)"
    by (simp add: demo_field_def)
  have h2: "0 < length (sc_reference_fields drifted_scope)
     \<and> valid_datetime (sc_reference_fields drifted_scope ! 0) \<noteq> sc_most_recent_datetime drifted_scope"
    by (simp add: drifted_scope_def demo_field_def)
  have h3: "(0, 0, ''2t'') \<in> set (zip [0..<length (sc_prognostic_data drifted_scope)]
           (zip (sc_prognostic_data drifted_scope) (prognostic_params (sc_checkpoint drifted_scope))))"
    by (simp add: drifted_scope_def demo_checkpoint_def upt_conv_Cons)
  have h4: "0 < nrows ?acc \<and> 0 < length (diagnostic_output_mask (sc_checkpoint drifted_scope))
        \<and> broadcastable (nrows (demo_model ?t)) (ncols ?acc)
        \<and> valid_datetime (sc_precip_template drifted_scope) \<noteq> sc_most_recent_datetime drifted_scope"
    by (simp add: drifted_scope_def demo_checkpoint_def demo_model_def broadcastable_def
        demo_field_def)
  from facts h1 have c1: "get_most_recent_datetime ?fs = Inl AssertionError
      \<and> isl (snd (run_with demo_checkpoint demo_loader demo_model ?fs 12 0))"
    by blast
  from facts h2 have c2: "prognostic_loop drifted_scope (demo_model ?t) 6 [(0, 0, ''2t'')]
        = ([], Inl AssertionError)"
    by blast
  from facts h2 h3 have c3: "isl (snd (rollout_step drifted_scope demo_loader demo_model 0 (?t, ?acc)))"
    by blast
  from facts h4 have c4: "diagnostic_loop drifted_scope (demo_model ?t) 6 [(0, ''tp'')] ?acc
        = ([], Inl AssertionError)"
    by blast
  from h1 h2 c1 c2 c3 c4 show ?thesis by blast
qed


section \<open>Classification\<close>

lemma np_put_nth [simp]: "i < length xs \<Longrightarrow> np_put xs ms v ! i = (if i \<in> set ms then v else xs ! i)"
  by (simp add: np_put_def)

lemma np_put_length [simp]: "length (np_put xs ms v) = length xs"
  by (simp add: np_put_def)

lemma mark_Inr_iff:
  "(\<exists>cl'. mark ms k b cl = Inr cl') \<longleftrightarrow> (\<forall>i\<in>set ms. i < length (check cl) \<and> \<not> check cl ! i)"
  by (auto simp: mark_def list_all_iff list_ex_iff)

lemma mark_Inr:
  assumes "mark ms k b cl = Inr cl'"
    and "length (kinds cl) = length (check cl)" and "length (inputs cl) = length (check cl)"
  shows "length (check cl') = length (check cl)"
    and "length (kinds cl') = length (check cl)"
    and "length (inputs cl') = length (check cl)"
    and "i < length (check cl) \<Longrightarrow> check cl' ! i = (i \<in> set ms \<or> check cl ! i)"
    and "i < length (check cl) \<Longrightarrow> kinds cl' ! i = (if i \<in> set ms then k else kinds cl ! i)"
    and "i < length (check cl) \<Longrightarrow> inputs cl' ! i = ((b \<and> i \<in> set ms) \<or> inputs cl ! i)"
  using assms by (auto simp: mark_def split: if_splits)


lemma four_marks_Inr:
  assumes "four_marks c = Inr cl"
  defines "n \<equiv> num_input_features c"
  defines "C \<equiv> set (computed_constants_mask c)" and "K \<equiv> set (constants_from_input_mask c)"
    and "F \<equiv> set (computed_forcings_mask c)" and "P \<equiv> set (prognostic_input_mask c)"
  shows "length (check cl) = n" and "length (kinds cl) = n" and "length (inputs cl) = n"
    and "C \<union> K \<union> F \<union> P \<subseteq> {..<n}"
    and "C \<inter> K = {}" and "(C \<union> K) \<inter> F = {}" and "(C \<union> K \<union> F) \<inter> P = {}"
    and "\<And>i. i < n \<Longrightarrow> check cl ! i = (i \<in> C \<union> K \<union> F \<union> P)"
    and "\<And>i. i < n \<Longrightarrow> kinds cl ! i =
          (if i \<in> P then Kind_P else if i \<in> F then Kind_F else if i \<in> K then Kind_K
           else if i \<in> C then Kind_C else Kind_Q)"
    and "\<And>i. i < n \<Longrightarrow> inputs cl ! i = (i \<in> K \<union> P)"
proof -
  let ?s = "\<lparr>check = replicate n False, kinds = replicate n Kind_Q, inputs = replicate n False\<rparr>"
  from assms(1) obtain cl1 cl2 cl3 where
    m1: "mark (computed_constants_mask c) Kind_C False ?s = Inr cl1" and
    m2: "mark (constants_from_input_mask c) Kind_K True cl1 = Inr cl2" and
    m3: "mark (computed_forcings_mask c) Kind_F False cl2 = Inr cl3" and
    m4: "mark (prognostic_input_mask c) Kind_P True cl3 = Inr cl"
    by (auto simp: four_marks_def Let_def n_def and_then_Inr_iff)
  have l0: "length (check ?s) = n" "length (kinds ?s) = length (check ?s)"
    "length (inputs ?s) = length (check ?s)" by simp_all
  note r1 = mark_Inr [OF m1 l0(2,3), unfolded l0(1)]
  have l1: "length (kinds cl1) = length (check cl1)" "length (inputs cl1) = length (check cl1)"
    using r1(1-3) by simp_all
  note r2 = mark_Inr [OF m2 l1, unfolded r1(1)]
  have l2: "length (kinds cl2) = length (check cl2)" "length (inputs cl2) = length (check cl2)"
    using r2(1-3) by simp_all
  note r3 = mark_Inr [OF m3 l2, unfolded r2(1)]
  have l3: "length (kinds cl3) = length (check cl3)" "length (inputs cl3) = length (check cl3)"
    using r3(1-3) by simp_all
  note r4 = mark_Inr [OF m4 l3, unfolded r3(1)]
  have p1: "\<forall>i\<in>C. i < n \<and> \<not> check ?s ! i"
    using mark_Inr_iff [of "computed_constants_mask c" Kind_C False ?s] m1 by (simp add: C_def)
  have p2: "\<forall>i\<in>K. i < n \<and> \<not> check cl1 ! i"
    using mark_Inr_iff [of "constants_from_input_mask c" Kind_K True cl1] m2 r1(1)
    by (simp add: K_def)
  have p3: "\<forall>i\<in>F. i < n \<and> \<not> check cl2 ! i"
    using mark_Inr_iff [of "computed_forcings_mask c" Kind_F False cl2] m3 r2(1)
    by (simp add: F_def)
  have p4: "\<forall>i\<in>P. i < n \<and> \<not> check cl3 ! i"
    using mark_Inr_iff [of "prognostic_input_mask c" Kind_P True cl3] m4 r3(1)
    by (simp add: P_def)
  show "length (check cl) = n" "length (kinds cl) = n" "length (inputs cl) = n"
    using r4(1-3) by simp_all
  show "C \<union> K \<union> F \<union> P \<subseteq> {..<n}" using p1 p2 p3 p4 by auto
  have c1: "check cl1 ! i = (i \<in> C)" if "i < n" for i using r1(4) [OF that] that by (simp add: C_def)
  have c2: "check cl2 ! i = (i \<in> C \<union> K)" if "i < n" for i
    using r2(4) [OF that] c1 [OF that] by (auto simp: K_def)
  have c3: "check cl3 ! i = (i \<in> C \<union> K \<union> F)" if "i < n" for i
    using r3(4) [OF that] c2 [OF that] by (auto simp: F_def)
  show "C \<inter> K = {}" using p2 c1 by auto
  show "(C \<union> K) \<inter> F = {}" using p3 c2 by auto
  show d4: "(C \<union> K \<union> F) \<inter> P = {}" using p4 c3 by auto
  show "check cl ! i = (i \<in> C \<union> K \<union> F \<union> P)" if "i < n" for i
    using r4(4) [OF that] c3 [OF that] by (auto simp: P_def)
  have k1: "kinds cl1 ! i = (if i \<in> C then Kind_C else Kind_Q)" if "i < n" for i
    using r1(5) [OF that] that by (simp add: C_def)
  have k2: "kinds cl2 ! i = (if i \<in> K then Kind_K else if i \<in> C then Kind_C else Kind_Q)"
    if "i < n" for i
    using r2(5) [OF that] k1 [OF that] by (simp add: K_def)
  have k3: "kinds cl3 ! i = (if i \<in> F then Kind_F else if i \<in> K then Kind_K
      else if i \<in> C then Kind_C else Kind_Q)" if "i < n" for i
    using r3(5) [OF that] k2 [OF that] by (simp add: F_def)
  show "kinds cl ! i = (if i \<in> P then Kind_P else if i \<in> F then Kind_F else if i \<in> K then Kind_K
           else if i \<in> C then Kind_C else Kind_Q)" if "i < n" for i
    using r4(5) [OF that] k3 [OF that] by (simp add: P_def)
  have i1: "inputs cl1 ! i = False" if "i < n" for i using r1(6) [OF that] that by simp
  have i2: "inputs cl2 ! i = (i \<in> K)" if "i < n" for i
    using r2(6) [OF that] i1 [OF that] by (simp add: K_def)
  have i3: "inputs cl3 ! i = (i \<in> K)" if "i < n" for i
    using r3(6) [OF that] i2 [OF that] by simp
  show "inputs cl ! i = (i \<in> K \<union> P)" if "i < n" for i
    using r4(6) [OF that] i3 [OF that] by (auto simp: P_def)
qed


lemma four_marks_succeeds:
  fixes c
  defines "n \<equiv> num_input_features c"
  defines "C \<equiv> set (computed_constants_mask c)" and "K \<equiv> set (constants_from_input_mask c)"
    and "F \<equiv> set (computed_forcings_mask c)" and "P \<equiv> set (prognostic_input_mask c)"
  assumes r: "C \<union> K \<union> F \<union> P \<subseteq> {..<n}"
    and d: "C \<inter> K = {}" "(C \<union> K) \<inter> F = {}" "(C \<union> K \<union> F) \<inter> P = {}"
  shows "\<exists>cl. four_marks c = Inr cl"
proof -
  let ?s = "\<lparr>check = replicate n False, kinds = replicate n Kind_Q, inputs = replicate n False\<rparr>"
  have l0: "length (check ?s) = n" "length (kinds ?s) = length (check ?s)"
    "length (inputs ?s) = length (check ?s)" by simp_all
  have "\<forall>i\<in>set (computed_constants_mask c). i < length (check ?s) \<and> \<not> check ?s ! i"
    using r by (auto simp: C_def)
  then obtain cl1 where m1: "mark (computed_constants_mask c) Kind_C False ?s = Inr cl1"
    using mark_Inr_iff [of "computed_constants_mask c" Kind_C False ?s] by blast
  note r1 = mark_Inr [OF m1 l0(2,3), unfolded l0(1)]
  have l1: "length (kinds cl1) = length (check cl1)" "length (inputs cl1) = length (check cl1)"
    using r1(1-3) by simp_all
  have c1: "check cl1 ! i = (i \<in> C)" if "i < n" for i
    using r1(4) [OF that] that by (simp add: C_def)
  have "\<forall>i\<in>K. i < n \<and> \<not> check cl1 ! i"
  proof
    fix i assume "i \<in> K"
    with r d(1) have "i < n" "i \<notin> C" by auto
    with c1 show "i < n \<and> \<not> check cl1 ! i" by simp
  qed
  then have "\<forall>i\<in>set (constants_from_input_mask c). i < length (check cl1) \<and> \<not> check cl1 ! i"
    by (simp add: r1(1) K_def)
  then obtain cl2 where m2: "mark (constants_from_input_mask c) Kind_K True cl1 = Inr cl2"
    using mark_Inr_iff [of "constants_from_input_mask c" Kind_K True cl1] by blast
  note r2 = mark_Inr [OF m2 l1, unfolded r1(1)]
  have l2: "length (kinds cl2) = length (check cl2)" "length (inputs cl2) = length (check cl2)"
    using r2(1-3) by simp_all
  have c2: "check cl2 ! i = (i \<in> C \<union> K)" if "i < n" for i
    using r2(4) [OF that] c1 [OF that] by (auto simp: K_def)
  have "\<forall>i\<in>F. i < n \<and> \<not> check cl2 ! i"
  proof
    fix i assume "i \<in> F"
    with r d(2) have "i < n" "i \<notin> C \<union> K" by auto
    with c2 show "i < n \<and> \<not> check cl2 ! i" by simp
  qed
  then have "\<forall>i\<in>set (computed_forcings_mask c). i < length (check cl2) \<and> \<not> check cl2 ! i"
    by (simp add: r2(1) F_def)
  then obtain cl3 where m3: "mark (computed_forcings_mask c) Kind_F False cl2 = Inr cl3"
    using mark_Inr_iff [of "computed_forcings_mask c" Kind_F False cl2] by blast
  note r3 = mark_Inr [OF m3 l2, unfolded r2(1)]
  have c3: "check cl3 ! i = (i \<in> C \<union> K \<union> F)" if "i < n" for i
    using r3(4) [OF that] c2 [OF that] by (auto simp: F_def)
  have "\<forall>i\<in>P. i < n \<and> \<not> check cl3 ! i"
  proof
    fix i assume "i \<in> P"
    with r d(3) have "i < n" "i \<notin> C \<union> K \<union> F" by auto
    with c3 show "i < n \<and> \<not> check cl3 ! i" by simp
  qed
  then have "\<forall>i\<in>set (prognostic_input_mask c). i < length (check cl3) \<and> \<not> check cl3 ! i"
    by (simp add: r3(1) P_def)
  then obtain cl4 where m4: "mark (prognostic_input_mask c) Kind_P True cl3 = Inr cl4"
    using mark_Inr_iff [of "prognostic_input_mask c" Kind_P True cl3] by blast
  from m1 m2 m3 m4 show ?thesis by (simp add: four_marks_def Let_def n_def)
qed

lemma report_missing_named:
  assumes "\<forall>i\<in>set xs. \<not> chk ! i \<longrightarrow> variable_name c i \<noteq> None"
  shows "report_missing c chk xs
    = (map (missing_line c) (filter (\<lambda>i. \<not> chk ! i) xs), Inl (RuntimeError ''Missing fields''))"
  using assms
proof (induction xs)
  case Nil
  show ?case by (simp add: raise_def)
next
  case (Cons i xs)
  then show ?case
    by (auto simp: variable_name_def missing_line_def split: option.splits)
qed

lemma report_missing_unnamed:
  assumes "i \<in> set xs" "\<not> chk ! i" "variable_name c i = None"
  shows "snd (report_missing c chk xs) = Inl KeyError"
  using assms(1)
proof (induction xs)
  case Nil then show ?case by simp
next
  case (Cons j xs)
  show ?case
  proof (cases "j = i")
    case True
    with assms(2,3) show ?thesis by (auto simp: variable_name_def split: option.splits)
  next
    case False
    with Cons have ih: "snd (report_missing c chk xs) = Inl KeyError" by simp
    then show ?thesis by (auto simp: snd_then_do split: option.splits)
  qed
qed

lemma mask_count_1:
  "mask_count c i = 1 \<longleftrightarrow>
     (i \<in> set (computed_constants_mask c) \<union> set (constants_from_input_mask c)
          \<union> set (computed_forcings_mask c) \<union> set (prognostic_input_mask c))
     \<and> mask_count c i \<le> 1"
  by (auto simp: mask_count_def split: if_splits)

lemma mask_count_0:
  "mask_count c i = 0 \<longleftrightarrow>
     i \<notin> set (computed_constants_mask c) \<union> set (constants_from_input_mask c)
          \<union> set (computed_forcings_mask c) \<union> set (prognostic_input_mask c)"
  by (auto simp: mask_count_def split: if_splits)

lemma mask_count_le_1:
  "(\<forall>i. mask_count c i \<le> 1) \<longleftrightarrow>
     set (computed_constants_mask c) \<inter> set (constants_from_input_mask c) = {}
     \<and> (set (computed_constants_mask c) \<union> set (constants_from_input_mask c))
          \<inter> set (computed_forcings_mask c) = {}
     \<and> (set (computed_constants_mask c) \<union> set (constants_from_input_mask c)
          \<union> set (computed_forcings_mask c)) \<inter> set (prognostic_input_mask c) = {}"
  by (auto simp: mask_count_def split: if_splits)

lemma masks_in_range_iff:
  "masks_in_range c \<longleftrightarrow>
     set (computed_constants_mask c) \<union> set (constants_from_input_mask c)
          \<union> set (computed_forcings_mask c) \<union> set (prognostic_input_mask c)
       \<subseteq> {..<num_input_features c}"
  by (auto simp: masks_in_range_def in_range_def list_all_iff)


lemma mark_Inl: "mark ms k b cl = Inl e \<Longrightarrow> e = IndexError \<or> e = AssertionError"
  by (auto simp: mark_def split: if_splits)

lemma four_marks_Inl: "four_marks c = Inl e \<Longrightarrow> e = IndexError \<or> e = AssertionError"
  by (auto simp: four_marks_def Let_def and_then_def split: sum.splits dest: mark_Inl)

lemma unchecked_uncovered:
  assumes "four_marks c = Inr cl"
  shows "filter (\<lambda>i. \<not> check cl ! i) [0..<length (check cl)] = uncovered c"
    and "list_all (\<lambda>b. b) (check cl) \<longleftrightarrow> uncovered c = []"
proof -
  note f = four_marks_Inr [OF assms]
  have *: "(\<not> check cl ! i) = (mask_count c i = 0)" if "i < num_input_features c" for i
    using f(8) [OF that] by (simp add: mask_count_0)
  show u: "filter (\<lambda>i. \<not> check cl ! i) [0..<length (check cl)] = uncovered c"
    unfolding uncovered_def f(1) by (rule filter_cong) (simp_all add: *)
  have "list_all (\<lambda>b. b) (check cl) \<longleftrightarrow> (\<forall>i<length (check cl). check cl ! i)"
    by (simp add: list_all_length)
  also have "\<dots> \<longleftrightarrow> filter (\<lambda>i. \<not> check cl ! i) [0..<length (check cl)] = []"
    by (auto simp: filter_empty_conv)
  finally show "list_all (\<lambda>b. b) (check cl) \<longleftrightarrow> uncovered c = []" by (simp add: u)
qed

lemma classify_eq:
  "classify c =
     (case four_marks c of
        Inl e \<Rightarrow> ([], Inl e)
      | Inr cl \<Rightarrow> if uncovered c = [] then ([], Inr cl)
                  else report_missing c (check cl) [0..<num_input_features c])"
proof (cases "four_marks c")
  case (Inl e) then show ?thesis by (simp add: classify_def raise_def)
next
  case (Inr cl)
  with unchecked_uncovered(2) [OF Inr] four_marks_Inr(1) [OF Inr] show ?thesis
    by (simp add: classify_def ret_def)
qed

text \<open>
  Claim C3. Classification succeeds exactly when every mask index is in range and every
  feature index below \<open>N\<close> lies in exactly one of the four masks; an index in two masks
  or an uncovered index makes it fail. When it fails with the error
  \<^verbatim>\<open>RuntimeError("Missing fields")\<close>, some index is uncovered and the error lines
  logged before the error are one line per uncovered index, all of them, in ascending
  order, each with its display name; and with masks that are in range and do not overlap,
  an uncovered index whose names can be looked up leads to exactly this outcome.
\<close>

theorem partition_property:
  "((\<exists>cl. snd (classify c) = Inr cl) \<longleftrightarrow>
       masks_in_range c \<and> (\<forall>i < num_input_features c. mask_count c i = 1))
   \<and> ((\<exists>i. 2 \<le> mask_count c i) \<or> (\<exists>i < num_input_features c. mask_count c i = 0) \<longrightarrow>
        isl (snd (classify c)))
   \<and> (snd (classify c) = Inl (RuntimeError ''Missing fields'') \<longrightarrow>
        uncovered c \<noteq> [] \<and> fst (classify c) = map (missing_line c) (uncovered c)
        \<and> (\<forall>i \<in> set (uncovered c). variable_name c i \<noteq> None))
   \<and> (masks_in_range c \<and> (\<forall>i. mask_count c i \<le> 1) \<and> uncovered c \<noteq> []
        \<and> (\<forall>i \<in> set (uncovered c). variable_name c i \<noteq> None) \<longrightarrow>
        classify c = (map (missing_line c) (uncovered c), Inl (RuntimeError ''Missing fields'')))"
proof -
  let ?n = "num_input_features c"
  let ?U = "set (computed_constants_mask c) \<union> set (constants_from_input_mask c)
          \<union> set (computed_forcings_mask c) \<union> set (prognostic_input_mask c)"
  have fails: "isl (snd (report_missing c chk xs))" for chk xs
    by (rule report_missing_fails)
  have unc: "uncovered c = [] \<longleftrightarrow> (\<forall>i<?n. mask_count c i \<noteq> 0)"
    by (auto simp: uncovered_def filter_empty_conv)
  have outside: "mask_count c i = 0" if "masks_in_range c" "\<not> i < ?n" for i
    using that by (auto simp: masks_in_range_iff mask_count_0)
  have ok_iff: "(\<exists>cl. four_marks c = Inr cl) \<longleftrightarrow> masks_in_range c \<and> (\<forall>i. mask_count c i \<le> 1)"
  proof
    assume "\<exists>cl. four_marks c = Inr cl"
    then obtain cl where cl: "four_marks c = Inr cl" ..
    from four_marks_Inr(4-7) [OF cl] mask_count_le_1 [of c] masks_in_range_iff [of c]
    show "masks_in_range c \<and> (\<forall>i. mask_count c i \<le> 1)"
      by blast
  next
    assume h: "masks_in_range c \<and> (\<forall>i. mask_count c i \<le> 1)"
    from h masks_in_range_iff [of c] have r: "?U \<subseteq> {..<?n}" by blast
    from h mask_count_le_1 [of c]
    have d: "set (computed_constants_mask c) \<inter> set (constants_from_input_mask c) = {}"
      "(set (computed_constants_mask c) \<union> set (constants_from_input_mask c))
          \<inter> set (computed_forcings_mask c) = {}"
      "(set (computed_constants_mask c) \<union> set (constants_from_input_mask c)
          \<union> set (computed_forcings_mask c)) \<inter> set (prognostic_input_mask c) = {}"
      by blast+
    show "\<exists>cl. four_marks c = Inr cl"
      by (rule four_marks_succeeds [OF r d])
  qed
  have a: "(\<exists>cl. snd (classify c) = Inr cl) \<longleftrightarrow>
       masks_in_range c \<and> (\<forall>i < ?n. mask_count c i = 1)"
  proof
    assume "\<exists>cl. snd (classify c) = Inr cl"
    then obtain cl where s: "snd (classify c) = Inr cl" ..
    then obtain cl' where f: "four_marks c = Inr cl'"
      by (cases "four_marks c") (simp_all add: classify_eq)
    with s fails [of "check cl'" "[0..<?n]"] have u: "uncovered c = []"
      by (auto simp: classify_eq split: if_splits)
    from f ok_iff have r: "masks_in_range c" "\<forall>i. mask_count c i \<le> 1" by blast+
    have "mask_count c i = 1" if "i < ?n" for i
      using u that r(2) [rule_format, of i] by (auto simp: unc le_Suc_eq)
    with r show "masks_in_range c \<and> (\<forall>i < ?n. mask_count c i = 1)" by simp
  next
    assume h: "masks_in_range c \<and> (\<forall>i < ?n. mask_count c i = 1)"
    then have "mask_count c i \<le> 1" for i using outside [of i] by (cases "i < ?n") auto
    with h ok_iff obtain cl where f: "four_marks c = Inr cl" by blast
    from h have "uncovered c = []" by (simp add: unc)
    with f show "\<exists>cl. snd (classify c) = Inr cl" by (simp add: classify_eq)
  qed
  have b: "(\<exists>i. 2 \<le> mask_count c i) \<or> (\<exists>i < ?n. mask_count c i = 0) \<longrightarrow> isl (snd (classify c))"
  proof
    assume h: "(\<exists>i. 2 \<le> mask_count c i) \<or> (\<exists>i < ?n. mask_count c i = 0)"
    have "\<not> (masks_in_range c \<and> (\<forall>i < ?n. mask_count c i = 1))"
    proof
      assume g: "masks_in_range c \<and> (\<forall>i < ?n. mask_count c i = 1)"
      then have le: "mask_count c i \<le> 1" for i using outside [of i] by (cases "i < ?n") auto
      from h show False
      proof
        assume "\<exists>i. 2 \<le> mask_count c i"
        then obtain i where "2 \<le> mask_count c i" ..
        with le [of i] show False by simp
      next
        assume "\<exists>i < ?n. mask_count c i = 0"
        with g show False by auto
      qed
    qed
    with a have "\<not> (\<exists>cl. snd (classify c) = Inr cl)" by simp
    then show "isl (snd (classify c))" by (cases "snd (classify c)") simp_all
  qed
  have d: "snd (classify c) = Inl (RuntimeError ''Missing fields'') \<longrightarrow>
        uncovered c \<noteq> [] \<and> fst (classify c) = map (missing_line c) (uncovered c)
        \<and> (\<forall>i \<in> set (uncovered c). variable_name c i \<noteq> None)"
  proof
    assume s: "snd (classify c) = Inl (RuntimeError ''Missing fields'')"
    then obtain cl where f: "four_marks c = Inr cl"
      using four_marks_Inl [of c] by (cases "four_marks c") (auto simp: classify_eq)
    with s have u: "uncovered c \<noteq> []" by (auto simp: classify_eq)
    with f have eq: "classify c = report_missing c (check cl) [0..<?n]" by (simp add: classify_eq)
    note uu = unchecked_uncovered(1) [OF f, unfolded four_marks_Inr(1) [OF f]]
    have named: "variable_name c i \<noteq> None" if "i \<in> set (uncovered c)" for i
    proof
      assume "variable_name c i = None"
      moreover from that have "i \<in> set [0..<?n]" "\<not> check cl ! i"
        unfolding uu [symmetric] by simp_all
      ultimately have "snd (report_missing c (check cl) [0..<?n]) = Inl KeyError"
        by (intro report_missing_unnamed)
      with s eq show False by simp
    qed
    then have "\<forall>i\<in>set [0..<?n]. \<not> check cl ! i \<longrightarrow> variable_name c i \<noteq> None"
      unfolding uu [symmetric] by simp
    from report_missing_named [OF this] eq uu u named
    show "uncovered c \<noteq> [] \<and> fst (classify c) = map (missing_line c) (uncovered c)
        \<and> (\<forall>i \<in> set (uncovered c). variable_name c i \<noteq> None)" by simp
  qed
  have e: "masks_in_range c \<and> (\<forall>i. mask_count c i \<le> 1) \<and> uncovered c \<noteq> []
        \<and> (\<forall>i \<in> set (uncovered c). variable_name c i \<noteq> None) \<longrightarrow>
        classify c = (map (missing_line c) (uncovered c), Inl (RuntimeError ''Missing fields''))"
  proof (intro impI, elim conjE)
    assume h: "masks_in_range c" "\<forall>i. mask_count c i \<le> 1" "uncovered c \<noteq> []"
      "\<forall>i \<in> set (uncovered c). variable_name c i \<noteq> None"
    from h(1,2) ok_iff obtain cl where f: "four_marks c = Inr cl" by blast
    with h(3) have eq: "classify c = report_missing c (check cl) [0..<?n]" by (simp add: classify_eq)
    note uu = unchecked_uncovered(1) [OF f, unfolded four_marks_Inr(1) [OF f]]
    from h(4) have "\<forall>i\<in>set [0..<?n]. \<not> check cl ! i \<longrightarrow> variable_name c i \<noteq> None"
      unfolding uu [symmetric] by simp
    from report_missing_named [OF this] eq uu
    show "classify c = (map (missing_line c) (uncovered c), Inl (RuntimeError ''Missing fields''))"
      by simp
  qed
  show ?thesis by (intro conjI a b d e)
qed


theorem partition_property_witness:
  "masks_in_range demo_checkpoint
   \<and> (\<exists>cl. snd (classify demo_checkpoint) = Inr cl)
   \<and> masks_in_range gap_checkpoint
   \<and> uncovered gap_checkpoint = [1]
   \<and> classify gap_checkpoint = ([LogMissing 1 1 ''10u''], Inl (RuntimeError ''Missing fields''))"
proof -
  have r: "masks_in_range demo_checkpoint" by code_simp
  have one: "\<forall>i < num_input_features demo_checkpoint. mask_count demo_checkpoint i = 1"
    by (auto simp: mask_count_def demo_checkpoint_def less_Suc_eq eval_nat_numeral)
  from partition_property [of demo_checkpoint] r one
  have a: "\<exists>cl. snd (classify demo_checkpoint) = Inr cl" by blast
  have rg: "masks_in_range gap_checkpoint" by code_simp
  have le: "\<forall>i. mask_count gap_checkpoint i \<le> 1"
    by (auto simp: mask_count_def gap_checkpoint_def demo_checkpoint_def)
  have u: "uncovered gap_checkpoint = [1]" by code_simp
  have nm: "\<forall>i \<in> set (uncovered gap_checkpoint). variable_name gap_checkpoint i \<noteq> None"
    unfolding u by (simp add: variable_name_def gap_checkpoint_def demo_checkpoint_def)
  have ml: "missing_line gap_checkpoint 1 = LogMissing 1 1 ''10u''"
    by (simp add: missing_line_def gap_checkpoint_def demo_checkpoint_def)
  from partition_property [of gap_checkpoint] rg le u nm
  have "classify gap_checkpoint
      = (map (missing_line gap_checkpoint) (uncovered gap_checkpoint),
         Inl (RuntimeError ''Missing fields''))"
    by simp
  then have b: "classify gap_checkpoint = ([LogMissing 1 1 ''10u''], Inl (RuntimeError ''Missing fields''))"
    unfolding u using ml by simp
  from r a rg u b show ?thesis by blast
qed


section \<open>Validation\<close>












section \<open>Assembly\<close>

lemma last_index_None: "last_index ms i = None \<longleftrightarrow> i \<notin> set ms"
proof -
  have "filter (\<lambda>j. ms ! j = i) (rev [0..<length ms]) = [] \<longleftrightarrow> i \<notin> set ms"
    by (auto simp: filter_empty_conv in_set_conv_nth)
  then show ?thesis by (auto simp: last_index_def split: list.splits)
qed

lemma last_index_Some: "last_index ms i = Some j \<Longrightarrow> j < length ms \<and> ms ! j = i"
proof -
  assume "last_index ms i = Some j"
  then obtain rest where "filter (\<lambda>j. ms ! j = i) (rev [0..<length ms]) = j # rest"
    by (auto simp: last_index_def split: list.splits)
  then have "j \<in> set (filter (\<lambda>j. ms ! j = i) (rev [0..<length ms]))" by simp
  then show ?thesis by auto
qed

lemma last_index_distinct:
  assumes "distinct ms" "j < length ms"
  shows "last_index ms (ms ! j) = Some j"
proof (cases "last_index ms (ms ! j)")
  case None
  with assms(2) show ?thesis by (simp add: last_index_None)
next
  case (Some k)
  from last_index_Some [OF Some] have "k < length ms" "ms ! k = ms ! j" by simp_all
  with assms have "k = j" by (simp add: nth_eq_iff_index_eq)
  with Some show ?thesis by simp
qed


lemma bcast_less: "broadcastable n m \<Longrightarrow> j < m \<Longrightarrow> bcast n j < n"
  by (auto simp: bcast_def broadcastable_def)

























section \<open>A run that returns\<close>








end
